theory Spec2Isabelle
  imports Complex_Main "HOL-Library.Log_Nat"
begin

section \<open>Cell values\<close>

text \<open>
  A cell of an object column of the data frame is Python's \<open>None\<close>, a float NaN, a
  \<open>str\<close>, or some other non-missing object. The code only ever looks at such an
  object through \<open>str(x)\<close>, so it is represented by that text.

  Text is modelled as ASCII: whitespace, case and the characters \<open>#\<close>, \<open>%\<close>,
  \<open>$\<close>, \<open>S\<close> are the ASCII ones; bytes above 127 are neither whitespace nor letters.
\<close>

datatype pyval = PyNone | PyNaN | PyStr string | PyObj string

fun isna :: "pyval \<Rightarrow> bool" where
  "isna PyNone = True"
| "isna PyNaN = True"
| "isna (PyStr s) = False"
| "isna (PyObj t) = False"

text \<open>\<open>str(x)\<close>.\<close>

fun py_str :: "pyval \<Rightarrow> string" where
  "py_str PyNone = ''None''"
| "py_str PyNaN = ''nan''"
| "py_str (PyStr s) = s"
| "py_str (PyObj t) = t"

section \<open>String operations used by the normalizer\<close>

text \<open>
  \<open>str.isspace\<close> on ASCII: tab, line feed, vertical tab, form feed, carriage return,
  the four separators 0x1C..0x1F, and the space. The regular expression class
  \<open>\s\<close> on a \<open>str\<close> pattern is the same set.
\<close>

definition is_space :: "char \<Rightarrow> bool" where
  "is_space c \<longleftrightarrow> c \<in> {CHR 0x09, CHR 0x0A, CHR 0x0B, CHR 0x0C, CHR 0x0D,
                       CHR 0x1C, CHR 0x1D, CHR 0x1E, CHR 0x1F, CHR 0x20}"

text \<open>Removing the longest suffix of characters that satisfy \<open>P\<close>.\<close>

definition drop_end :: "(char \<Rightarrow> bool) \<Rightarrow> string \<Rightarrow> string" where
  "drop_end P s = rev (dropWhile P (rev s))"

text \<open>\<open>s.strip()\<close>.\<close>

definition strip :: "string \<Rightarrow> string" where
  "strip s = drop_end is_space (dropWhile is_space s)"

text \<open>\<open>s.lower()\<close> on ASCII.\<close>

definition lower_char :: "char \<Rightarrow> char" where
  "lower_char c =
     (case map_of (zip ''ABCDEFGHIJKLMNOPQRSTUVWXYZ'' ''abcdefghijklmnopqrstuvwxyz'') c of
        None \<Rightarrow> c
      | Some l \<Rightarrow> l)"

definition lower :: "string \<Rightarrow> string" where
  "lower s = map lower_char s"

text \<open>
  \<open>re.sub(r"[#]+$", "", s)\<close>. Without the MULTILINE flag \<open>$\<close> matches at the end of
  the text and also just before a line feed that is the last character; the leftmost
  match is the whole run of \<open>#\<close> that ends there.
\<close>

definition is_hash :: "char \<Rightarrow> bool" where
  "is_hash c \<longleftrightarrow> c = CHR ''#''"

definition sub_trailing_hashes :: "string \<Rightarrow> string" where
  "sub_trailing_hashes s =
     (if s \<noteq> [] \<and> last s = CHR 0x0A \<and> butlast s \<noteq> [] \<and> is_hash (last (butlast s))
      then drop_end is_hash (butlast s) @ [CHR 0x0A]
      else drop_end is_hash s)"

text \<open>\<open>re.sub(r"\s+", " ", s)\<close>: every maximal run of whitespace becomes one space.\<close>

function sub_whitespace :: "string \<Rightarrow> string" where
  "sub_whitespace [] = []"
| "sub_whitespace (c # cs) =
     (if is_space c then CHR '' '' # sub_whitespace (dropWhile is_space cs)
      else c # sub_whitespace cs)"
  by pat_completeness auto
termination
  by (relation "measure length") (auto simp: le_imp_less_Suc length_dropWhile_le)

section \<open>The categorical normalizer\<close>

text \<open>\<open>EVDataProcessor._normalize_text\<close>.\<close>

definition normalize_text :: "pyval \<Rightarrow> pyval" where
  "normalize_text x =
     (case x of
        PyNone \<Rightarrow> PyNaN
      | PyNaN \<Rightarrow> PyNaN
      | _ \<Rightarrow>
          (let s = lower (strip (py_str x)) in
           if s = ''nan'' then PyNaN
           else PyStr (sub_whitespace (strip (sub_trailing_hashes s)))))"

text \<open>
  A Python \<open>dict\<close> from text to text is an association list in the order of the
  source; \<open>d.get(k, k)\<close> is the lookup that falls back to the key.
\<close>

type_synonym pydict = "(string \<times> string) list"

definition get_or_self :: "pydict \<Rightarrow> string \<Rightarrow> string" where
  "get_or_self d k = (case map_of d k of None \<Rightarrow> k | Some v \<Rightarrow> v)"

text \<open>
  \<open>EVDataProcessor._apply_aliases\<close>: \<open>Series.replace(aliases)\<close> replaces every element
  equal to a key by that key's value and leaves the others, missing ones included.
\<close>

fun apply_aliases :: "pydict \<Rightarrow> pyval \<Rightarrow> pyval" where
  "apply_aliases aliases (PyStr s) = PyStr (get_or_self aliases s)"
| "apply_aliases aliases v = v"

text \<open>\<open>EVDataProcessor._to_canonical\<close>, the inner \<open>mapper\<close>.\<close>

fun to_canonical :: "pydict \<Rightarrow> pyval \<Rightarrow> pyval" where
  "to_canonical canon PyNaN = PyNaN"
| "to_canonical canon (PyStr s) = PyStr (get_or_self canon s)"
| "to_canonical canon v = v"

text \<open>\<open>Series.fillna("Unknown")\<close> and \<open>Series.replace(text, np.nan)\<close> on one element.\<close>

definition fillna_Unknown :: "pyval \<Rightarrow> pyval" where
  "fillna_Unknown x = (if isna x then PyStr ''Unknown'' else x)"

definition replace_by_nan :: "string \<Rightarrow> pyval \<Rightarrow> pyval" where
  "replace_by_nan t x = (if x = PyStr t then PyNaN else x)"

text \<open>
  \<open>EVDataProcessor._clean_categorical_column\<close> on one cell of the column: every step
  of it works element by element.
\<close>

definition clean_categorical_cell :: "pydict \<Rightarrow> pydict \<Rightarrow> pyval \<Rightarrow> pyval" where
  "clean_categorical_cell aliases canon x =
     replace_by_nan ''Unknown''
       (replace_by_nan ''unknown''
          (to_canonical canon (apply_aliases aliases (normalize_text (fillna_Unknown x)))))"

text \<open>The same on the whole column.\<close>

definition clean_categorical_column :: "pydict \<Rightarrow> pydict \<Rightarrow> pyval list \<Rightarrow> pyval list" where
  "clean_categorical_column aliases canon col = map (clean_categorical_cell aliases canon) col"

subsection \<open>The alias and canonical dictionaries\<close>

definition VEHICLE_ALIASES :: pydict where
  "VEHICLE_ALIASES =
     [(''audi e-tro'', ''audi e-tron''),
      (''tesla model'', ''tesla model 3''),
      (''chevy bol'', ''chevy bolt''),
      (''nissan lea'', ''nissan leaf''),
      (''hyundai kon'', ''hyundai kona'')]"

definition LOCATION_ALIASES :: pydict where
  "LOCATION_ALIASES =
     [(''los angele'', ''los angeles''),
      (''new yor'', ''new york''),
      (''san francisc'', ''san francisco''),
      (''chicag'', ''chicago''),
      (''seattl'', ''seattle'')]"

definition TIME_ALIASES :: pydict where
  "TIME_ALIASES =
     [(''mornin'', ''morning''),
      (''afternoo'', ''afternoon''),
      (''evenin'', ''evening''),
      (''nigh'', ''night'')]"

definition DAY_ALIASES :: pydict where
  "DAY_ALIASES =
     [(''monda'', ''monday''),
      (''tuesda'', ''tuesday''),
      (''wednesda'', ''wednesday''),
      (''thursda'', ''thursday''),
      (''frida'', ''friday''),
      (''saturda'', ''saturday''),
      (''sunda'', ''sunday'')]"

definition CHARGER_ALIASES :: pydict where
  "CHARGER_ALIASES = [(''dc fast charge'', ''dc fast charger'')]"

definition USER_ALIASES :: pydict where
  "USER_ALIASES =
     [(''commute'', ''commuter''),
      (''long-distance travele'', ''long distance traveler''),
      (''long-distance traveler'', ''long distance traveler'')]"

definition VEHICLE_CANON :: pydict where
  "VEHICLE_CANON =
     [(''tesla model 3'', ''Tesla Model 3''),
      (''chevy bolt'', ''Chevy Bolt''),
      (''nissan leaf'', ''Nissan Leaf''),
      (''hyundai kona'', ''Hyundai Kona''),
      (''audi e-tron'', ''Audi e-Tron'')]"

definition LOCATION_CANON :: pydict where
  "LOCATION_CANON =
     [(''los angeles'', ''Los Angeles''),
      (''new york'', ''New York''),
      (''san francisco'', ''San Francisco''),
      (''chicago'', ''Chicago''),
      (''seattle'', ''Seattle'')]"

definition TIME_CANON :: pydict where
  "TIME_CANON =
     [(''morning'', ''Morning''),
      (''afternoon'', ''Afternoon''),
      (''evening'', ''Evening''),
      (''night'', ''Night'')]"

definition DAY_CANON :: pydict where
  "DAY_CANON =
     [(''monday'', ''Monday''),
      (''tuesday'', ''Tuesday''),
      (''wednesday'', ''Wednesday''),
      (''thursday'', ''Thursday''),
      (''friday'', ''Friday''),
      (''saturday'', ''Saturday''),
      (''sunday'', ''Sunday'')]"

definition CHARGER_CANON :: pydict where
  "CHARGER_CANON =
     [(''level 1'', ''Level 1''),
      (''level 2'', ''Level 2''),
      (''dc fast charger'', ''Dc Fast Charger''),
      (''level'', ''Level'')]"

definition USER_CANON :: pydict where
  "USER_CANON =
     [(''commuter'', ''Commuter''),
      (''long distance traveler'', ''Long Distance Traveler'')]"

text \<open>
  The six calls of \<open>clean_categoricals_auto\<close>: the column with its alias and its
  canonical dictionary.
\<close>

definition categorical_rules :: "(string \<times> pydict \<times> pydict) list" where
  "categorical_rules =
     [(''VehicleModel'', VEHICLE_ALIASES, VEHICLE_CANON),
      (''ChargingStationLocation'', LOCATION_ALIASES, LOCATION_CANON),
      (''TimeOfDay'', TIME_ALIASES, TIME_CANON),
      (''DayOfWeek'', DAY_ALIASES, DAY_CANON),
      (''ChargerType'', CHARGER_ALIASES, CHARGER_CANON),
      (''UserType'', USER_ALIASES, USER_CANON)]"

section \<open>Floating-point values\<close>

text \<open>
  A Python float is a finite value, an infinity or NaN. Finite values are modelled as
  rationals. \<open>fsub\<close> and \<open>fmul\<close> are subtraction and multiplication without the
  rounding and the overflow of a finite result; the operations of the subsection on
  double precision round their result.
\<close>

datatype pyfloat = Fin rat | PosInf | NegInf | NaN

fun fisna :: "pyfloat \<Rightarrow> bool" where
  "fisna NaN = True"
| "fisna x = False"

fun fsub :: "pyfloat \<Rightarrow> pyfloat \<Rightarrow> pyfloat" where
  "fsub NaN y = NaN"
| "fsub x NaN = NaN"
| "fsub (Fin a) (Fin b) = Fin (a - b)"
| "fsub (Fin a) PosInf = NegInf"
| "fsub (Fin a) NegInf = PosInf"
| "fsub PosInf PosInf = NaN"
| "fsub PosInf y = PosInf"
| "fsub NegInf NegInf = NaN"
| "fsub NegInf y = NegInf"

fun fmul :: "pyfloat \<Rightarrow> pyfloat \<Rightarrow> pyfloat" where
  "fmul NaN y = NaN"
| "fmul x NaN = NaN"
| "fmul (Fin a) (Fin b) = Fin (a * b)"
| "fmul (Fin a) y =
     (if a = 0 then NaN else if (0 < a) = (y = PosInf) then PosInf else NegInf)"
| "fmul x (Fin b) =
     (if b = 0 then NaN else if (0 < b) = (x = PosInf) then PosInf else NegInf)"
| "fmul x y = (if x = y then PosInf else NegInf)"

subsection \<open>\<open>float(text)\<close>\<close>

text \<open>
  The grammar of Python's \<open>float\<close> on a \<open>str\<close>: surrounding whitespace, a sign,
  then \<open>inf\<close>, \<open>infinity\<close> or \<open>nan\<close> in any case, or a decimal number with an
  optional exponent, where single underscores may separate digits. \<open>None\<close> is the
  \<open>ValueError\<close>.
\<close>

definition is_digit :: "char \<Rightarrow> bool" where
  "is_digit c \<longleftrightarrow> c \<in> set ''0123456789''"

definition digit_val :: "char \<Rightarrow> nat" where
  "digit_val c =
     (case map_of (zip ''0123456789'' [0, 1, 2, 3, 4, 5, 6, 7, 8, 9]) c of
        None \<Rightarrow> 0
      | Some d \<Rightarrow> d)"

fun digitpart_ok :: "string \<Rightarrow> bool" where
  "digitpart_ok [] = False"
| "digitpart_ok [c] = is_digit c"
| "digitpart_ok (c # d # cs) =
     (is_digit c \<and> (if d = CHR ''_'' then digitpart_ok cs else digitpart_ok (d # cs)))"

definition digits_val :: "string \<Rightarrow> nat" where
  "digits_val s = foldl (\<lambda>n c. 10 * n + digit_val c) 0 (filter is_digit s)"

definition mantissa_ok :: "string \<Rightarrow> string \<Rightarrow> bool" where
  "mantissa_ok i f =
     (case f of
        [] \<Rightarrow> digitpart_ok i
      | _ # f' \<Rightarrow> (digitpart_ok f' \<and> (i = [] \<or> digitpart_ok i)) \<or> (f' = [] \<and> digitpart_ok i))"

definition exponent_of :: "string \<Rightarrow> int option" where
  "exponent_of x =
     (case x of
        [] \<Rightarrow> Some 0
      | _ # x' \<Rightarrow>
          (let neg = (x' \<noteq> [] \<and> hd x' = CHR ''-'');
               d = (if x' \<noteq> [] \<and> (hd x' = CHR ''-'' \<or> hd x' = CHR ''+'') then tl x' else x')
           in if digitpart_ok d
              then Some (if neg then - int (digits_val d) else int (digits_val d))
              else None))"

definition pow10 :: "int \<Rightarrow> rat" where
  "pow10 e = (if 0 \<le> e then 10 ^ nat e else 1 / 10 ^ nat (- e))"

definition parse_decimal :: "string \<Rightarrow> rat option" where
  "parse_decimal s =
     (let not_e = (\<lambda>c. c \<noteq> CHR ''e'' \<and> c \<noteq> CHR ''E'');
          m = takeWhile not_e s;
          x = dropWhile not_e s;
          i = takeWhile (\<lambda>c. c \<noteq> CHR ''.'') m;
          f = dropWhile (\<lambda>c. c \<noteq> CHR ''.'') m
      in if \<not> mantissa_ok i f then None
         else (case exponent_of x of
                 None \<Rightarrow> None
               | Some e \<Rightarrow>
                   Some ((of_nat (digits_val i)
                          + of_nat (digits_val f) / 10 ^ length (filter is_digit f))
                         * pow10 e)))"

definition parse_float :: "string \<Rightarrow> pyfloat option" where
  "parse_float s =
     (let t = strip s;
          neg = (t \<noteq> [] \<and> hd t = CHR ''-'');
          u = (if t \<noteq> [] \<and> (hd t = CHR ''-'' \<or> hd t = CHR ''+'') then tl t else t);
          l = lower u
      in if l = ''inf'' \<or> l = ''infinity'' then Some (if neg then NegInf else PosInf)
         else if l = ''nan'' then Some NaN
         else map_option (\<lambda>q. Fin (if neg then - q else q)) (parse_decimal u))"

section \<open>The table\<close>

text \<open>
  A row of the data frame once the file is loaded, the columns are renamed and
  \<open>UserId\<close> is dropped. The text columns hold object cells; the columns that
  \<open>read_csv\<close> reads as numbers hold floats, NaN where the file has no value. The two
  type parameters are the cell types of the columns whose type the later stages change:
  \<open>'t\<close> for the start and end time, \<open>'n\<close> for the cost and the two states of charge.
  The columns \<open>StateOfChargeStart%\<close> and \<open>StateOfChargeEnd%\<close> are the fields
  \<open>StateOfChargeStart\<close> and \<open>StateOfChargeEnd\<close>, \<open>ChargeDifference%\<close> is
  \<open>ChargeDifference\<close>.
\<close>

record ('t, 'n) row =
  VehicleModel :: pyval
  BatteryCapacityKWh :: pyfloat
  ChargingStationId :: pyval
  ChargingStationLocation :: pyval
  ChargingStartTime :: "'t"
  ChargingEndTime :: "'t"
  EnergyConsumedKwh :: pyfloat
  ChargingDurationHours :: pyfloat
  ChargingRateKW :: pyfloat
  ChargingCostUSD :: "'n"
  TimeOfDay :: pyval
  DayOfWeek :: pyval
  StateOfChargeStart :: "'n"
  StateOfChargeEnd :: "'n"
  DistanceDrivenKm :: pyfloat
  TemperatureC :: pyfloat
  VehicleAgeYears :: pyfloat
  ChargerType :: pyval
  UserType :: pyval

type_synonym raw_row = "(pyval, pyval) row"

text \<open>\<open>isna\<close> of one row: some cell of it is missing.\<close>

definition row_has_na :: "raw_row \<Rightarrow> bool" where
  "row_has_na r \<longleftrightarrow>
      isna (VehicleModel r) \<or>
      fisna (BatteryCapacityKWh r) \<or>
      isna (ChargingStationId r) \<or>
      isna (ChargingStationLocation r) \<or>
      isna (ChargingStartTime r) \<or>
      isna (ChargingEndTime r) \<or>
      fisna (EnergyConsumedKwh r) \<or>
      fisna (ChargingDurationHours r) \<or>
      fisna (ChargingRateKW r) \<or>
      isna (ChargingCostUSD r) \<or>
      isna (TimeOfDay r) \<or>
      isna (DayOfWeek r) \<or>
      isna (StateOfChargeStart r) \<or>
      isna (StateOfChargeEnd r) \<or>
      fisna (DistanceDrivenKm r) \<or>
      fisna (TemperatureC r) \<or>
      fisna (VehicleAgeYears r) \<or>
      isna (ChargerType r) \<or>
      isna (UserType r)"

text \<open>\<open>DataFrame.dropna()\<close>.\<close>

definition dropna :: "raw_row list \<Rightarrow> raw_row list" where
  "dropna t = filter (\<lambda>r. \<not> row_has_na r) t"

subsection \<open>The processor and its guard\<close>

datatype py_error = DataFrameNotLoaded | ParseFailure

text \<open>
  \<open>self.df\<close> is \<open>None\<close> until \<open>load\<close> has run. \<open>EVDataProcessor._ensure_df\<close> raises
  on \<open>None\<close>; every pipeline step calls it first.
\<close>

definition ensure_df :: "'a option \<Rightarrow> py_error + 'a" where
  "ensure_df df = (case df of None \<Rightarrow> Inl DataFrameNotLoaded | Some t \<Rightarrow> Inr t)"

subsection \<open>Categorical cleaning and the missing-row drop\<close>

text \<open>
  \<open>EVDataProcessor.clean_categoricals_auto\<close>: the six columns in the order of the
  source, each with its own dictionaries.
\<close>

definition clean_categoricals_row :: "raw_row \<Rightarrow> raw_row" where
  "clean_categoricals_row r =
     r\<lparr>VehicleModel := clean_categorical_cell VEHICLE_ALIASES VEHICLE_CANON (VehicleModel r),
        ChargingStationLocation := clean_categorical_cell LOCATION_ALIASES LOCATION_CANON (ChargingStationLocation r),
        TimeOfDay := clean_categorical_cell TIME_ALIASES TIME_CANON (TimeOfDay r),
        DayOfWeek := clean_categorical_cell DAY_ALIASES DAY_CANON (DayOfWeek r),
        ChargerType := clean_categorical_cell CHARGER_ALIASES CHARGER_CANON (ChargerType r),
        UserType := clean_categorical_cell USER_ALIASES USER_CANON (UserType r)\<rparr>"

definition clean_categoricals_auto :: "raw_row list option \<Rightarrow> py_error + raw_row list option" where
  "clean_categoricals_auto df =
     (case ensure_df df of
        Inl e \<Rightarrow> Inl e
      | Inr t \<Rightarrow> Inr (Some (map clean_categoricals_row t)))"

text \<open>
  \<open>EVDataProcessor.handle_missing_and_dropna\<close>. The counts it prints do not change
  the table.
\<close>

definition handle_missing_and_dropna :: "raw_row list option \<Rightarrow> py_error + raw_row list option" where
  "handle_missing_and_dropna df =
     (case ensure_df df of
        Inl e \<Rightarrow> Inl e
      | Inr t \<Rightarrow> Inr (Some (dropna t)))"

subsection \<open>Splitting the date-time columns\<close>

text \<open>\<open>s.split(c)\<close> for a one-character separator.\<close>

fun split_on :: "char \<Rightarrow> string \<Rightarrow> string list" where
  "split_on c [] = [[]]"
| "split_on c (x # xs) =
     (if x = c then [] # split_on c xs
      else (case split_on c xs of
              [] \<Rightarrow> [[x]]
            | t # ts \<Rightarrow> (x # t) # ts))"

text \<open>
  \<open>Series.str.split(" ").str[i]\<close> on one cell: the \<open>i\<close>-th piece of a \<open>str\<close>, NaN
  (here \<open>None\<close>) when there are fewer pieces or the cell is not a \<open>str\<close>.
\<close>

fun str_split_get :: "nat \<Rightarrow> pyval \<Rightarrow> string option" where
  "str_split_get i (PyStr s) =
     (let ts = split_on CHR '' '' s in if i < length ts then Some (ts ! i) else None)"
| "str_split_get i v = None"

text \<open>
  \<open>re.sub(r"\..*$", "", s)\<close>: the leftmost dot from which no line feed follows, other
  than one that ends the text, is removed with all that follows it on that line.
\<close>

definition to_line_end :: "string \<Rightarrow> bool" where
  "to_line_end cs \<longleftrightarrow>
     CHR 0x0A \<notin> set (if cs \<noteq> [] \<and> last cs = CHR 0x0A then butlast cs else cs)"

fun sub_fraction :: "string \<Rightarrow> string" where
  "sub_fraction [] = []"
| "sub_fraction (c # cs) =
     (if c = CHR ''.'' \<and> to_line_end cs
      then (if cs \<noteq> [] \<and> last cs = CHR 0x0A then [CHR 0x0A] else [])
      else c # sub_fraction cs)"

text \<open>
  Calendar dates and times of day, and a cell of a date or time column: a value or
  \<open>NaT\<close>.
\<close>

datatype pydate = Date nat nat nat

datatype pytime = Time nat nat nat

datatype 'a datetimelike = NaT | Value 'a

text \<open>
  What \<open>pd.to_datetime\<close> makes of one text is pandas' business and a parameter here:
  the text is rejected (the call raises), read as \<open>NaT\<close>, or parsed. The two date
  columns are converted by separate calls without a format, the two time columns with
  the format \<open>%H:%M:%S\<close>.
\<close>

datatype 'a parsed = Rejected | ParsedNaT | Parsed 'a

record parsers =
  start_date_parser :: "string \<Rightarrow> pydate parsed"
  end_date_parser :: "string \<Rightarrow> pydate parsed"
  time_parser :: "string \<Rightarrow> pytime parsed"

text \<open>\<open>pd.to_datetime\<close> on one element: a missing element becomes \<open>NaT\<close>.\<close>

fun to_datetime_elem :: "(string \<Rightarrow> 'a parsed) \<Rightarrow> string option \<Rightarrow> py_error + 'a datetimelike" where
  "to_datetime_elem p None = Inr NaT"
| "to_datetime_elem p (Some s) =
     (case p s of
        Rejected \<Rightarrow> Inl ParseFailure
      | ParsedNaT \<Rightarrow> Inr NaT
      | Parsed v \<Rightarrow> Inr (Value v))"

text \<open>\<open>pd.to_datetime\<close> on a column: one rejected element fails the call.\<close>

fun to_datetime :: "(string \<Rightarrow> 'a parsed) \<Rightarrow> string option list \<Rightarrow> py_error + 'a datetimelike list" where
  "to_datetime p [] = Inr []"
| "to_datetime p (x # xs) =
     (case to_datetime_elem p x of
        Inl e \<Rightarrow> Inl e
      | Inr v \<Rightarrow> (case to_datetime p xs of Inl e \<Rightarrow> Inl e | Inr vs \<Rightarrow> Inr (v # vs)))"

record ('t, 'n) dated_row = "('t, 'n) row" +
  ChargingStartDate :: "pydate datetimelike"
  ChargingEndDate :: "pydate datetimelike"

type_synonym split_row = "(pytime datetimelike, pyval) dated_row"

text \<open>
  The row after the stage: the two text columns are dropped and the four new columns
  take the final names.
\<close>

definition with_dates ::
  "raw_row \<Rightarrow> pydate datetimelike \<Rightarrow> pytime datetimelike \<Rightarrow> pydate datetimelike
     \<Rightarrow> pytime datetimelike \<Rightarrow> split_row" where
  "with_dates r sd st ed et =
     \<lparr>VehicleModel = VehicleModel r,
        BatteryCapacityKWh = BatteryCapacityKWh r,
        ChargingStationId = ChargingStationId r,
        ChargingStationLocation = ChargingStationLocation r,
        ChargingStartTime = st,
        ChargingEndTime = et,
        EnergyConsumedKwh = EnergyConsumedKwh r,
        ChargingDurationHours = ChargingDurationHours r,
        ChargingRateKW = ChargingRateKW r,
        ChargingCostUSD = ChargingCostUSD r,
        TimeOfDay = TimeOfDay r,
        DayOfWeek = DayOfWeek r,
        StateOfChargeStart = StateOfChargeStart r,
        StateOfChargeEnd = StateOfChargeEnd r,
        DistanceDrivenKm = DistanceDrivenKm r,
        TemperatureC = TemperatureC r,
        VehicleAgeYears = VehicleAgeYears r,
        ChargerType = ChargerType r,
        UserType = UserType r,
        ChargingStartDate = sd,
        ChargingEndDate = ed\<rparr>"

text \<open>\<open>EVDataProcessor.process_datetime_columns\<close> on the loaded table.\<close>

definition split_datetime_columns :: "parsers \<Rightarrow> raw_row list \<Rightarrow> py_error + split_row list" where
  "split_datetime_columns pd t =
     (let start_date_only = map (\<lambda>r. str_split_get 0 (ChargingStartTime r)) t;
          start_time_only = map (\<lambda>r. str_split_get 1 (ChargingStartTime r)) t;
          end_date_only = map (\<lambda>r. str_split_get 0 (ChargingEndTime r)) t;
          end_time_only =
            map (\<lambda>r. map_option sub_fraction (str_split_get 1 (ChargingEndTime r))) t
      in case to_datetime (start_date_parser pd) start_date_only of
           Inl e \<Rightarrow> Inl e
         | Inr sd \<Rightarrow>
        (case to_datetime (end_date_parser pd) end_date_only of
           Inl e \<Rightarrow> Inl e
         | Inr ed \<Rightarrow>
        (case to_datetime (time_parser pd) start_time_only of
           Inl e \<Rightarrow> Inl e
         | Inr st \<Rightarrow>
        (case to_datetime (time_parser pd) end_time_only of
           Inl e \<Rightarrow> Inl e
         | Inr et \<Rightarrow>
             Inr (map (\<lambda>i. with_dates (t ! i) (sd ! i) (st ! i) (ed ! i) (et ! i))
                    [0..<length t])))))"

definition process_datetime_columns ::
  "parsers \<Rightarrow> raw_row list option \<Rightarrow> py_error + split_row list option" where
  "process_datetime_columns pd df =
     (case ensure_df df of
        Inl e \<Rightarrow> Inl e
      | Inr t \<Rightarrow> (case split_datetime_columns pd t of Inl e \<Rightarrow> Inl e | Inr t' \<Rightarrow> Inr (Some t')))"

subsection \<open>Symbol stripping and derived features\<close>

text \<open>\<open>Series.str.replace(c, "")\<close> for a one-character literal \<open>c\<close>, on one text.\<close>

definition remove_char :: "char \<Rightarrow> string \<Rightarrow> string" where
  "remove_char c s = filter (\<lambda>x. x \<noteq> c) s"

text \<open>\<open>Series.astype(float)\<close> on a column of texts: one bad text fails the call.\<close>

fun astype_float :: "string list \<Rightarrow> py_error + pyfloat list" where
  "astype_float [] = Inr []"
| "astype_float (s # ss) =
     (case parse_float s of
        None \<Rightarrow> Inl ParseFailure
      | Some v \<Rightarrow> (case astype_float ss of Inl e \<Rightarrow> Inl e | Inr vs \<Rightarrow> Inr (v # vs)))"

record ('t, 'n) featured_row = "('t, 'n) dated_row" +
  ChargeDifference :: pyfloat
  ChargingDurationMinutes :: pyfloat

type_synonym final_row = "(pytime datetimelike, pyfloat) featured_row"

definition with_features :: "split_row \<Rightarrow> pyfloat \<Rightarrow> pyfloat \<Rightarrow> pyfloat \<Rightarrow> pyval \<Rightarrow> final_row" where
  "with_features r soc_start soc_end cost station =
     \<lparr>VehicleModel = VehicleModel r,
        BatteryCapacityKWh = BatteryCapacityKWh r,
        ChargingStationId = station,
        ChargingStationLocation = ChargingStationLocation r,
        ChargingStartTime = ChargingStartTime r,
        ChargingEndTime = ChargingEndTime r,
        EnergyConsumedKwh = EnergyConsumedKwh r,
        ChargingDurationHours = ChargingDurationHours r,
        ChargingRateKW = ChargingRateKW r,
        ChargingCostUSD = cost,
        TimeOfDay = TimeOfDay r,
        DayOfWeek = DayOfWeek r,
        StateOfChargeStart = soc_start,
        StateOfChargeEnd = soc_end,
        DistanceDrivenKm = DistanceDrivenKm r,
        TemperatureC = TemperatureC r,
        VehicleAgeYears = VehicleAgeYears r,
        ChargerType = ChargerType r,
        UserType = UserType r,
        ChargingStartDate = ChargingStartDate r,
        ChargingEndDate = ChargingEndDate r,
        ChargeDifference = fsub soc_end soc_start,
        ChargingDurationMinutes = fmul (ChargingDurationHours r) (Fin 60)\<rparr>"

text \<open>\<open>EVDataProcessor.clean_symbols_and_features\<close> on the loaded table.\<close>

definition strip_symbols_and_derive :: "split_row list \<Rightarrow> py_error + final_row list" where
  "strip_symbols_and_derive t =
     (case astype_float (map (\<lambda>r. remove_char CHR ''%'' (py_str (StateOfChargeStart r))) t) of
        Inl e \<Rightarrow> Inl e
      | Inr soc_start \<Rightarrow>
     (case astype_float (map (\<lambda>r. remove_char CHR ''%'' (py_str (StateOfChargeEnd r))) t) of
        Inl e \<Rightarrow> Inl e
      | Inr soc_end \<Rightarrow>
     (case astype_float (map (\<lambda>r. remove_char CHR ''$'' (py_str (ChargingCostUSD r))) t) of
        Inl e \<Rightarrow> Inl e
      | Inr cost \<Rightarrow>
          (let station = map (\<lambda>r. PyStr (remove_char CHR ''S'' (py_str (ChargingStationId r)))) t
           in Inr (map (\<lambda>i. with_features (t ! i) (soc_start ! i) (soc_end ! i) (cost ! i)
                               (station ! i))
                     [0..<length t])))))"

definition clean_symbols_and_features ::
  "split_row list option \<Rightarrow> py_error + final_row list option" where
  "clean_symbols_and_features df =
     (case ensure_df df of
        Inl e \<Rightarrow> Inl e
      | Inr t \<Rightarrow> (case strip_symbols_and_derive t of Inl e \<Rightarrow> Inl e | Inr t' \<Rightarrow> Inr (Some t')))"

text \<open>Some cell of a row of the finished table is missing.\<close>

definition final_row_has_na :: "final_row \<Rightarrow> bool" where
  "final_row_has_na r \<longleftrightarrow>
      isna (VehicleModel r) \<or>
      fisna (BatteryCapacityKWh r) \<or>
      isna (ChargingStationId r) \<or>
      isna (ChargingStationLocation r) \<or>
      ChargingStartTime r = NaT \<or>
      ChargingEndTime r = NaT \<or>
      fisna (EnergyConsumedKwh r) \<or>
      fisna (ChargingDurationHours r) \<or>
      fisna (ChargingRateKW r) \<or>
      fisna (ChargingCostUSD r) \<or>
      isna (TimeOfDay r) \<or>
      isna (DayOfWeek r) \<or>
      fisna (StateOfChargeStart r) \<or>
      fisna (StateOfChargeEnd r) \<or>
      fisna (DistanceDrivenKm r) \<or>
      fisna (TemperatureC r) \<or>
      fisna (VehicleAgeYears r) \<or>
      isna (ChargerType r) \<or>
      isna (UserType r) \<or>
      ChargingStartDate r = NaT \<or>
      ChargingEndDate r = NaT \<or>
      fisna (ChargeDifference r) \<or>
      fisna (ChargingDurationMinutes r)"

subsection \<open>The pipeline of \<open>main\<close>\<close>

text \<open>
  The steps of \<open>main\<close> that change the table, in its order, from the table that
  \<open>load\<close>, \<open>rename_columns\<close> and \<open>drop_user_id\<close> leave in \<open>self.df\<close>. The printing
  steps and the two checks after it leave the table as it is.
\<close>

definition run_pipeline :: "parsers \<Rightarrow> raw_row list \<Rightarrow> py_error + final_row list option" where
  "run_pipeline pd t =
     (case clean_categoricals_auto (Some t) of
        Inl e \<Rightarrow> Inl e
      | Inr df1 \<Rightarrow>
     (case handle_missing_and_dropna df1 of
        Inl e \<Rightarrow> Inl e
      | Inr df2 \<Rightarrow>
     (case process_datetime_columns pd df2 of
        Inl e \<Rightarrow> Inl e
      | Inr df3 \<Rightarrow> clean_symbols_and_features df3)))"

subsection \<open>Double precision\<close>

text \<open>
  The count of outliers depends on how the bounds are rounded, so the arithmetic of the
  check is that of IEEE 754 double precision: the exact result, rounded to the nearest
  double, ties to even, with subnormal numbers and overflow to infinity. The sign of
  zero is not modelled.

  \<open>binary_exponent a\<close> is the \<open>e\<close> with \<open>2 powi e \<le> a < 2 powi (e + 1)\<close>, for a
  positive \<open>a\<close>.
\<close>

definition binary_exponent :: "rat \<Rightarrow> int" where
  "binary_exponent a =
     (let (p, q) = quotient_of a;
          d = bitlen p - bitlen q
      in if 2 powi d \<le> a then d else d - 1)"

definition round_half_even :: "rat \<Rightarrow> int" where
  "round_half_even x =
     (let f = \<lfloor>x\<rfloor>; r = x - of_int f
      in if r < 1 / 2 then f else if 1 / 2 < r then f + 1 else if even f then f else f + 1)"

definition round_double :: "rat \<Rightarrow> pyfloat" where
  "round_double q =
     (if q = 0 then Fin 0
      else (let a = \<bar>q\<bar>;
                e = max (binary_exponent a) (- 1022);
                ulp = 2 powi (e - 52);
                m = of_int (round_half_even (a / ulp)) * ulp
            in if 2 powi 1024 \<le> m then (if q < 0 then NegInf else PosInf)
               else Fin (if q < 0 then - m else m)))"

definition round_result :: "pyfloat \<Rightarrow> pyfloat" where
  "round_result x = (case x of Fin q \<Rightarrow> round_double q | _ \<Rightarrow> x)"

fun fneg :: "pyfloat \<Rightarrow> pyfloat" where
  "fneg (Fin a) = Fin (- a)"
| "fneg PosInf = NegInf"
| "fneg NegInf = PosInf"
| "fneg NaN = NaN"

text \<open>Subtraction, addition and multiplication of two doubles.\<close>

definition dsub :: "pyfloat \<Rightarrow> pyfloat \<Rightarrow> pyfloat" where
  "dsub x y = round_result (fsub x y)"

definition dadd :: "pyfloat \<Rightarrow> pyfloat \<Rightarrow> pyfloat" where
  "dadd x y = round_result (fsub x (fneg y))"

definition dmul :: "pyfloat \<Rightarrow> pyfloat \<Rightarrow> pyfloat" where
  "dmul x y = round_result (fmul x y)"

text \<open>\<open>x < y\<close> on floats: false when either side is NaN.\<close>

fun flt :: "pyfloat \<Rightarrow> pyfloat \<Rightarrow> bool" where
  "flt NaN y = False"
| "flt x NaN = False"
| "flt (Fin a) (Fin b) = (a < b)"
| "flt NegInf NegInf = False"
| "flt NegInf y = True"
| "flt x NegInf = False"
| "flt PosInf y = False"
| "flt (Fin a) PosInf = True"

subsection \<open>Outlier check\<close>

text \<open>
  The body of the loop of \<open>EVDataProcessor.check_outliers_iqr\<close> for one numeric
  column: the selected values. What \<open>Series.quantile\<close> returns for a column is pandas'
  business and a parameter here; \<open>0.25\<close>, \<open>0.75\<close> and \<open>1.5\<close> are doubles.
\<close>

definition outliers :: "(rat \<Rightarrow> pyfloat list \<Rightarrow> pyfloat) \<Rightarrow> pyfloat list \<Rightarrow> pyfloat list" where
  "outliers quantile col =
     (let Q1 = quantile (1 / 4) col;
          Q3 = quantile (3 / 4) col;
          IQR = dsub Q3 Q1;
          lower_bound = dsub Q1 (dmul (Fin (3 / 2)) IQR);
          upper_bound = dadd Q3 (dmul (Fin (3 / 2)) IQR)
      in filter (\<lambda>x. flt x lower_bound \<or> flt upper_bound x) col)"

text \<open>The loop: the count for each numeric column, in the order of the columns.\<close>

definition outlier_counts ::
  "(rat \<Rightarrow> pyfloat list \<Rightarrow> pyfloat) \<Rightarrow> (string \<times> pyfloat list) list \<Rightarrow> (string \<times> nat) list" where
  "outlier_counts quantile numeric_columns =
     map (\<lambda>(column, col). (column, length (outliers quantile col))) numeric_columns"

text \<open>
  \<open>select_dtypes(include=[np.number])\<close> on the finished table: its numeric columns,
  in the order of the rename table, the two derived columns last.
\<close>

definition numeric_columns :: "final_row list \<Rightarrow> (string \<times> pyfloat list) list" where
  "numeric_columns t =
     [(''BatteryCapacityKWh'', map BatteryCapacityKWh t),
      (''EnergyConsumedKwh'', map EnergyConsumedKwh t),
      (''ChargingDurationHours'', map ChargingDurationHours t),
      (''ChargingRateKW'', map ChargingRateKW t),
      (''ChargingCostUSD'', map ChargingCostUSD t),
      (''StateOfChargeStart%'', map StateOfChargeStart t),
      (''StateOfChargeEnd%'', map StateOfChargeEnd t),
      (''DistanceDrivenKm'', map DistanceDrivenKm t),
      (''TemperatureC'', map TemperatureC t),
      (''VehicleAgeYears'', map VehicleAgeYears t),
      (''ChargeDifference%'', map ChargeDifference t),
      (''ChargingDurationMinutes'', map ChargingDurationMinutes t)]"

text \<open>
  \<open>EVDataProcessor.check_outliers_iqr\<close>: the counts that it prints. The table stays as
  it is.
\<close>

definition check_outliers_iqr ::
  "(rat \<Rightarrow> pyfloat list \<Rightarrow> pyfloat) \<Rightarrow> final_row list option \<Rightarrow> py_error + (string \<times> nat) list" where
  "check_outliers_iqr quantile df =
     (case ensure_df df of
        Inl e \<Rightarrow> Inl e
      | Inr t \<Rightarrow> Inr (outlier_counts quantile (numeric_columns t)))"

section \<open>Example data\<close>

text \<open>
  An instance of the parsers for the examples: it reads a date \<open>YYYY-MM-DD\<close> and a
  time \<open>HH:MM:SS\<close> written in digits, as pandas does, and rejects any other text.
\<close>

definition all_digits :: "nat \<Rightarrow> string \<Rightarrow> bool" where
  "all_digits n s \<longleftrightarrow> length s = n \<and> list_all is_digit s"

definition iso_date :: "string \<Rightarrow> pydate parsed" where
  "iso_date s =
     (case split_on CHR ''-'' s of
        [y, m, d] \<Rightarrow>
          if all_digits 4 y \<and> all_digits 2 m \<and> all_digits 2 d
             \<and> 1 \<le> digits_val m \<and> digits_val m \<le> 12 \<and> 1 \<le> digits_val d \<and> digits_val d \<le> 31
          then Parsed (Date (digits_val y) (digits_val m) (digits_val d))
          else Rejected
      | _ \<Rightarrow> Rejected)"

definition hms_time :: "string \<Rightarrow> pytime parsed" where
  "hms_time s =
     (case split_on CHR '':'' s of
        [h, m, sec] \<Rightarrow>
          if all_digits 2 h \<and> all_digits 2 m \<and> all_digits 2 sec
             \<and> digits_val h < 24 \<and> digits_val m < 60 \<and> digits_val sec < 60
          then Parsed (Time (digits_val h) (digits_val m) (digits_val sec))
          else Rejected
      | _ \<Rightarrow> Rejected)"

definition example_parsers :: parsers where
  "example_parsers =
     \<lparr>start_date_parser = iso_date, end_date_parser = iso_date, time_parser = hms_time\<rparr>"

text \<open>One charging session as the file has it.\<close>

definition example_row :: raw_row where
  "example_row =
     \<lparr>VehicleModel = PyStr ''Audi E-Tro  '',
        BatteryCapacityKWh = Fin 75,
        ChargingStationId = PyStr ''S123'',
        ChargingStationLocation = PyStr ''Seattle#'',
        ChargingStartTime = PyStr ''2024-01-01 08:00:00'',
        ChargingEndTime = PyStr ''2024-01-01 09:30:00.0'',
        EnergyConsumedKwh = Fin 30,
        ChargingDurationHours = Fin (3 / 2),
        ChargingRateKW = Fin 20,
        ChargingCostUSD = PyStr ''$10.50'',
        TimeOfDay = PyStr ''Mornin'',
        DayOfWeek = PyStr ''monday'',
        StateOfChargeStart = PyStr ''20%'',
        StateOfChargeEnd = PyStr ''80%'',
        DistanceDrivenKm = Fin 100,
        TemperatureC = Fin 21,
        VehicleAgeYears = Fin 2,
        ChargerType = PyStr ''DC Fast Charge'',
        UserType = PyStr ''Commute''\<rparr>"

text \<open>
  An instance of \<open>Series.quantile\<close> for the examples: the linear method of numpy on the
  values that are not NaN, in double precision. The value lies at position
  \<open>(n - 1) * q\<close> of the sorted values and is interpolated between its two neighbours.
\<close>

fun insort_float :: "pyfloat \<Rightarrow> pyfloat list \<Rightarrow> pyfloat list" where
  "insort_float x [] = [x]"
| "insort_float x (y # ys) = (if flt y x then y # insort_float x ys else x # y # ys)"

definition sort_floats :: "pyfloat list \<Rightarrow> pyfloat list" where
  "sort_floats xs = foldr insort_float xs []"

definition linear_quantile :: "rat \<Rightarrow> pyfloat list \<Rightarrow> pyfloat" where
  "linear_quantile q col =
     (let ys = sort_floats (filter (\<lambda>x. \<not> fisna x) col);
          n = length ys
      in if n = 0 then NaN
         else (case round_double (of_nat (n - 1) * q) of
                 Fin v \<Rightarrow>
                   (let previous = nat \<lfloor>v\<rfloor>;
                        next = min (previous + 1) (n - 1);
                        gamma = v - of_int \<lfloor>v\<rfloor>;
                        a = ys ! previous;
                        b = ys ! next;
                        diff_b_a = dsub b a
                    in if gamma < 1 / 2 then dadd a (dmul diff_b_a (Fin gamma))
                       else dsub b (dmul diff_b_a (dsub (Fin 1) (Fin gamma))))
               | _ \<Rightarrow> NaN))"

section \<open>Properties of the string operations\<close>

lemma drop_end_Nil [simp]: "drop_end P [] = []"
  by (simp add: drop_end_def)

lemma drop_end_id: "s = [] \<or> \<not> P (last s) \<Longrightarrow> drop_end P s = s"
  by (cases s rule: rev_cases) (auto simp: drop_end_def)

lemma drop_end_last: "drop_end P s \<noteq> [] \<Longrightarrow> \<not> P (last (drop_end P s))"
  unfolding drop_end_def by (simp add: last_rev hd_dropWhile)

lemma drop_end_snoc: "drop_end P (s @ [c]) = (if P c then drop_end P s else s @ [c])"
  by (simp add: drop_end_def)

lemma drop_end_hd: "drop_end P s \<noteq> [] \<Longrightarrow> hd (drop_end P s) = hd s"
  by (induction s rule: rev_induct) (auto simp: drop_end_snoc hd_append)

lemma drop_end_subset: "set (drop_end P s) \<subseteq> set s"
  by (induction s rule: rev_induct) (auto simp: drop_end_snoc)

lemma strip_hd: "strip s \<noteq> [] \<Longrightarrow> \<not> is_space (hd (strip s))"
  unfolding strip_def by (metis drop_end_hd drop_end_Nil hd_dropWhile)

lemma strip_last: "strip s \<noteq> [] \<Longrightarrow> \<not> is_space (last (strip s))"
  unfolding strip_def by (rule drop_end_last)

lemma strip_id: "s = [] \<or> (\<not> is_space (hd s) \<and> \<not> is_space (last s)) \<Longrightarrow> strip s = s"
  unfolding strip_def by (cases s) (auto simp: drop_end_id)

lemma strip_subset: "set (strip s) \<subseteq> set s"
  unfolding strip_def using drop_end_subset set_dropWhileD by fastforce

lemma is_space_lower_char [simp]: "is_space (lower_char c) = is_space c"
  by (auto simp: lower_char_def is_space_def split: option.splits if_splits)

lemma lower_char_idem [simp]: "lower_char (lower_char c) = lower_char c"
  by (auto simp: lower_char_def split: option.splits if_splits)

lemma lower_last: "s \<noteq> [] \<Longrightarrow> last (lower s) = lower_char (last s)"
  by (simp add: lower_def last_map)

lemma lower_Nil_iff [simp]: "lower s = [] \<longleftrightarrow> s = []"
  by (simp add: lower_def)

lemma lower_fixed: "(\<forall>c \<in> set s. lower_char c = c) \<Longrightarrow> lower s = s"
  by (simp add: lower_def map_idI)

lemma newline_is_space: "is_space (CHR 0x0A)"
  by (simp add: is_space_def)

lemma sub_trailing_hashes_stripped:
  "s = [] \<or> \<not> is_space (last s) \<Longrightarrow> sub_trailing_hashes s = drop_end is_hash s"
  using newline_is_space by (auto simp: sub_trailing_hashes_def)

lemma lower_strip_last: "lower (strip s) = [] \<or> \<not> is_space (last (lower (strip s)))"
  by (cases "strip s = []") (simp_all add: lower_last strip_last)

lemmas string_eval =
  strip_def drop_end_def is_space_def lower_def lower_char_def sub_trailing_hashes_def
  is_hash_def

section \<open>The normalizer\<close>

text \<open>
  C6, as stated, fails: the text \<open>nan\<close> is neither \<open>None\<close> nor a float NaN, its
  trimmed, lowercased, hash-stripped and collapsed form is the text \<open>nan\<close>, and the
  normalizer returns the missing marker for it.
\<close>

theorem normalize_text_nan_counterexample:
  "\<not> isna (PyStr ''nan'')
   \<and> sub_whitespace (strip (drop_end is_hash (lower (strip (py_str (PyStr ''nan'')))))) = ''nan''
   \<and> normalize_text (PyStr ''nan'') = PyNaN"
  by (simp add: normalize_text_def string_eval)

text \<open>
  C6, amended: \<open>None\<close> and a float NaN give the missing marker; so does every other
  input whose text, trimmed and lowercased, is \<open>nan\<close>; every other input gives its
  text trimmed, lowercased, without the run of \<open>#\<close> at its end, trimmed again, and
  with every run of whitespace collapsed to one space.
\<close>

theorem normalize_text_spec:
  "normalize_text PyNone = PyNaN
   \<and> normalize_text PyNaN = PyNaN
   \<and> (\<not> isna x \<longrightarrow>
        normalize_text x =
          (if lower (strip (py_str x)) = ''nan'' then PyNaN
           else PyStr (sub_whitespace (strip (drop_end is_hash (lower (strip (py_str x))))))))"
proof -
  have "sub_trailing_hashes (lower (strip s)) = drop_end is_hash (lower (strip s))" for s
    using lower_strip_last [of s] by (rule sub_trailing_hashes_stripped)
  then show ?thesis
    by (cases x) (simp_all add: normalize_text_def Let_def)
qed

theorem normalize_text_spec_witness:
  "\<not> isna (PyStr ''Audi E-Tro  '')
   \<and> normalize_text (PyStr ''Audi E-Tro  '') = PyStr ''audi e-tro''"
  using normalize_text_spec [of "PyStr ''Audi E-Tro  ''"]
  by (simp add: string_eval)

section \<open>The six dictionaries\<close>

text \<open>
  Every alias target is a key of the canonical dictionary of its column, and no label
  that an alias leads to is the sentinel.
\<close>

lemma vehicle_alias_chain:
  "\<forall>(k, target) \<in> set VEHICLE_ALIASES.
     map_of VEHICLE_CANON target = Some (get_or_self VEHICLE_CANON (get_or_self VEHICLE_ALIASES k))
     \<and> get_or_self VEHICLE_CANON (get_or_self VEHICLE_ALIASES k) \<notin> {''unknown'', ''Unknown''}"
  by (simp add: VEHICLE_ALIASES_def VEHICLE_CANON_def get_or_self_def)

lemma location_alias_chain:
  "\<forall>(k, target) \<in> set LOCATION_ALIASES.
     map_of LOCATION_CANON target = Some (get_or_self LOCATION_CANON (get_or_self LOCATION_ALIASES k))
     \<and> get_or_self LOCATION_CANON (get_or_self LOCATION_ALIASES k) \<notin> {''unknown'', ''Unknown''}"
  by (simp add: LOCATION_ALIASES_def LOCATION_CANON_def get_or_self_def)

lemma time_alias_chain:
  "\<forall>(k, target) \<in> set TIME_ALIASES.
     map_of TIME_CANON target = Some (get_or_self TIME_CANON (get_or_self TIME_ALIASES k))
     \<and> get_or_self TIME_CANON (get_or_self TIME_ALIASES k) \<notin> {''unknown'', ''Unknown''}"
  by (simp add: TIME_ALIASES_def TIME_CANON_def get_or_self_def)

lemma day_alias_chain:
  "\<forall>(k, target) \<in> set DAY_ALIASES.
     map_of DAY_CANON target = Some (get_or_self DAY_CANON (get_or_self DAY_ALIASES k))
     \<and> get_or_self DAY_CANON (get_or_self DAY_ALIASES k) \<notin> {''unknown'', ''Unknown''}"
  by (simp add: DAY_ALIASES_def DAY_CANON_def get_or_self_def)

lemma charger_alias_chain:
  "\<forall>(k, target) \<in> set CHARGER_ALIASES.
     map_of CHARGER_CANON target = Some (get_or_self CHARGER_CANON (get_or_self CHARGER_ALIASES k))
     \<and> get_or_self CHARGER_CANON (get_or_self CHARGER_ALIASES k) \<notin> {''unknown'', ''Unknown''}"
  by (simp add: CHARGER_ALIASES_def CHARGER_CANON_def get_or_self_def)

lemma user_alias_chain:
  "\<forall>(k, target) \<in> set USER_ALIASES.
     map_of USER_CANON target = Some (get_or_self USER_CANON (get_or_self USER_ALIASES k))
     \<and> get_or_self USER_CANON (get_or_self USER_ALIASES k) \<notin> {''unknown'', ''Unknown''}"
  by (simp add: USER_ALIASES_def USER_CANON_def get_or_self_def)

lemma alias_chain:
  assumes "(col, aliases, canon) \<in> set categorical_rules" and "(k, target) \<in> set aliases"
  shows "map_of canon target = Some (get_or_self canon (get_or_self aliases k))
         \<and> get_or_self canon (get_or_self aliases k) \<notin> {''unknown'', ''Unknown''}"
proof -
  from assms(1) consider
    "aliases = VEHICLE_ALIASES" "canon = VEHICLE_CANON"
    | "aliases = LOCATION_ALIASES" "canon = LOCATION_CANON"
    | "aliases = TIME_ALIASES" "canon = TIME_CANON"
    | "aliases = DAY_ALIASES" "canon = DAY_CANON"
    | "aliases = CHARGER_ALIASES" "canon = CHARGER_CANON"
    | "aliases = USER_ALIASES" "canon = USER_CANON"
    by (auto simp: categorical_rules_def)
  then show ?thesis
  proof cases
    case 1
    with assms(2) vehicle_alias_chain show ?thesis by blast
  next
    case 2
    with assms(2) location_alias_chain show ?thesis by blast
  next
    case 3
    with assms(2) time_alias_chain show ?thesis by blast
  next
    case 4
    with assms(2) day_alias_chain show ?thesis by blast
  next
    case 5
    with assms(2) charger_alias_chain show ?thesis by blast
  next
    case 6
    with assms(2) user_alias_chain show ?thesis by blast
  qed
qed

text \<open>The sentinel is no key of any dictionary.\<close>

lemma unknown_passes:
  "\<forall>(col, aliases, canon) \<in> set categorical_rules.
     get_or_self canon (get_or_self aliases ''unknown'') = ''unknown''"
  by (simp add: categorical_rules_def get_or_self_def VEHICLE_ALIASES_def
      LOCATION_ALIASES_def TIME_ALIASES_def DAY_ALIASES_def CHARGER_ALIASES_def
      USER_ALIASES_def VEHICLE_CANON_def LOCATION_CANON_def TIME_CANON_def DAY_CANON_def
      CHARGER_CANON_def USER_CANON_def)

lemma normalize_text_PyStr_not_na: "normalize_text x = PyStr k \<Longrightarrow> \<not> isna x"
  by (cases x) (simp_all add: normalize_text_def)

lemma normalize_text_Unknown: "normalize_text (PyStr ''Unknown'') = PyStr ''unknown''"
  by (simp add: normalize_text_def string_eval)

lemma clean_cell_of_normalized:
  assumes "\<not> isna x" and "normalize_text x = PyStr k"
  shows "clean_categorical_cell aliases canon x =
           replace_by_nan ''Unknown''
             (replace_by_nan ''unknown'' (PyStr (get_or_self canon (get_or_self aliases k))))"
  using assms by (simp add: clean_categorical_cell_def fillna_Unknown_def)

lemma clean_cell_missing:
  assumes "(col, aliases, canon) \<in> set categorical_rules" and "isna x"
  shows "clean_categorical_cell aliases canon x = PyNaN"
proof -
  have "get_or_self canon (get_or_self aliases ''unknown'') = ''unknown''"
    using unknown_passes assms(1) by blast
  with assms(2) show ?thesis
    by (simp add: clean_categorical_cell_def fillna_Unknown_def normalize_text_Unknown
        replace_by_nan_def)
qed

section \<open>Round trip through the alias and canonical dictionaries\<close>

text \<open>
  C2: for each of the six columns and every entry \<open>(k, target)\<close> of its alias
  dictionary, an input whose normalized form is \<open>k\<close> leaves the chain normalize, alias,
  canonical as the label that the canonical dictionary has for \<open>target\<close>, and so does
  it leave the whole cleaning of the cell; the raw text \<open>Audi E-Tro\<close> with two
  trailing spaces comes out as \<open>Audi e-Tron\<close>.
\<close>

theorem alias_round_trip:
  assumes "(col, aliases, canon) \<in> set categorical_rules"
    and "(k, target) \<in> set aliases"
    and "normalize_text x = PyStr k"
  shows "(\<exists>label. map_of canon target = Some label
            \<and> to_canonical canon (apply_aliases aliases (normalize_text x)) = PyStr label
            \<and> clean_categorical_cell aliases canon x = PyStr label)
         \<and> to_canonical VEHICLE_CANON
               (apply_aliases VEHICLE_ALIASES (normalize_text (PyStr ''Audi E-Tro  '')))
             = PyStr ''Audi e-Tron''"
proof -
  let ?label = "get_or_self canon (get_or_self aliases k)"
  have chain: "map_of canon target = Some ?label" "?label \<noteq> ''unknown''" "?label \<noteq> ''Unknown''"
    using alias_chain [OF assms(1,2)] by simp_all
  have "\<not> isna x"
    using assms(3) by (rule normalize_text_PyStr_not_na)
  then have "clean_categorical_cell aliases canon x = PyStr ?label"
    using chain(2,3) by (simp add: clean_cell_of_normalized [OF _ assms(3)] replace_by_nan_def)
  moreover have "to_canonical canon (apply_aliases aliases (normalize_text x)) = PyStr ?label"
    by (simp add: assms(3))
  moreover have "to_canonical VEHICLE_CANON
      (apply_aliases VEHICLE_ALIASES (normalize_text (PyStr ''Audi E-Tro  ''))) = PyStr ''Audi e-Tron''"
    by (simp add: normalize_text_def string_eval VEHICLE_ALIASES_def VEHICLE_CANON_def
        get_or_self_def)
  ultimately show ?thesis
    using chain(1) by blast
qed

theorem alias_round_trip_witness:
  "(''VehicleModel'', VEHICLE_ALIASES, VEHICLE_CANON) \<in> set categorical_rules
   \<and> (''audi e-tro'', ''audi e-tron'') \<in> set VEHICLE_ALIASES
   \<and> normalize_text (PyStr ''Audi E-Tro  '') = PyStr ''audi e-tro''
   \<and> map_of VEHICLE_CANON ''audi e-tron'' = Some ''Audi e-Tron''
   \<and> clean_categorical_cell VEHICLE_ALIASES VEHICLE_CANON (PyStr ''Audi E-Tro  '')
       = PyStr ''Audi e-Tron''"
proof -
  have h1: "(''VehicleModel'', VEHICLE_ALIASES, VEHICLE_CANON) \<in> set categorical_rules"
    by (simp add: categorical_rules_def)
  have h2: "(''audi e-tro'', ''audi e-tron'') \<in> set VEHICLE_ALIASES"
    by (simp add: VEHICLE_ALIASES_def)
  have h3: "normalize_text (PyStr ''Audi E-Tro  '') = PyStr ''audi e-tro''"
    by (simp add: normalize_text_def string_eval)
  have h4: "map_of VEHICLE_CANON ''audi e-tron'' = Some ''Audi e-Tron''"
    by (simp add: VEHICLE_CANON_def)
  from alias_round_trip [OF h1 h2 h3] h4 have
    "clean_categorical_cell VEHICLE_ALIASES VEHICLE_CANON (PyStr ''Audi E-Tro  '')
       = PyStr ''Audi e-Tron''"
    by auto
  with h1 h2 h3 h4 show ?thesis by blast
qed

section \<open>Missing cells and the missing-row drop\<close>

lemma run_pipeline_unfold:
  "run_pipeline pd t =
     (case split_datetime_columns pd (dropna (map clean_categoricals_row t)) of
        Inl e \<Rightarrow> Inl e
      | Inr t2 \<Rightarrow> (case strip_symbols_and_derive t2 of Inl e \<Rightarrow> Inl e | Inr t3 \<Rightarrow> Inr (Some t3)))"
  by (simp add: run_pipeline_def clean_categoricals_auto_def handle_missing_and_dropna_def
      process_datetime_columns_def clean_symbols_and_features_def ensure_df_def
      split: sum.splits)

lemma dropna_removes:
  "row_has_na r \<Longrightarrow> dropna (t1 @ r # t2) = dropna (t1 @ t2)"
  by (simp add: dropna_def)

lemma dropna_complete: "r \<in> set (dropna t) \<Longrightarrow> \<not> row_has_na r"
  by (simp add: dropna_def)

lemma clean_row_has_na:
  assumes "\<forall>(col, aliases, canon) \<in> set categorical_rules.
             clean_categorical_cell aliases canon x = PyNaN"
    and "x \<in> {VehicleModel r, ChargingStationLocation r, TimeOfDay r, DayOfWeek r,
               ChargerType r, UserType r}"
  shows "row_has_na (clean_categoricals_row r)"
proof -
  from assms(1) have
    "clean_categorical_cell VEHICLE_ALIASES VEHICLE_CANON x = PyNaN"
    "clean_categorical_cell LOCATION_ALIASES LOCATION_CANON x = PyNaN"
    "clean_categorical_cell TIME_ALIASES TIME_CANON x = PyNaN"
    "clean_categorical_cell DAY_ALIASES DAY_CANON x = PyNaN"
    "clean_categorical_cell CHARGER_ALIASES CHARGER_CANON x = PyNaN"
    "clean_categorical_cell USER_ALIASES USER_CANON x = PyNaN"
    by (simp_all add: categorical_rules_def)
  with assms(2) show ?thesis
    by (auto simp: row_has_na_def clean_categoricals_row_def)
qed

text \<open>
  C7: a \<open>None\<close> (or NaN) cell of a categorical column is missing after the cleaning
  chain of each of the six columns, and a row with such a cell in one of the six columns
  is removed by the missing-row drop, whatever its other cells hold: the cleaned row is
  in the table that \<open>clean_categoricals_auto\<close> leaves and is not in the table that
  \<open>handle_missing_and_dropna\<close> leaves, which is the one obtained without that row, and
  the whole pipeline gives the result it gives without that row.
\<close>

theorem missing_preserved_and_dropped:
  assumes "x \<in> {VehicleModel r, ChargingStationLocation r, TimeOfDay r, DayOfWeek r,
               ChargerType r, UserType r}"
    and "isna x"
  shows "(\<forall>(col, aliases, canon) \<in> set categorical_rules.
            clean_categorical_cell aliases canon PyNone = PyNaN
            \<and> isna (clean_categorical_cell aliases canon x))
         \<and> row_has_na (clean_categoricals_row r)
         \<and> dropna (map clean_categoricals_row (t1 @ r # t2))
             = dropna (map clean_categoricals_row (t1 @ t2))
         \<and> (\<exists>cleaned out.
               clean_categoricals_auto (Some (t1 @ r # t2)) = Inr (Some cleaned)
               \<and> clean_categoricals_row r \<in> set cleaned
               \<and> handle_missing_and_dropna (Some cleaned) = Inr (Some out)
               \<and> clean_categoricals_row r \<notin> set out
               \<and> (\<forall>r' \<in> set out. \<not> row_has_na r')
               \<and> handle_missing_and_dropna (Some (map clean_categoricals_row (t1 @ t2)))
                   = Inr (Some out))
         \<and> run_pipeline pd (t1 @ r # t2) = run_pipeline pd (t1 @ t2)"
proof -
  have cells: "\<forall>(col, aliases, canon) \<in> set categorical_rules.
                 clean_categorical_cell aliases canon x = PyNaN"
    using assms(2) clean_cell_missing by blast
  have none: "\<forall>(col, aliases, canon) \<in> set categorical_rules.
                 clean_categorical_cell aliases canon PyNone = PyNaN"
    using clean_cell_missing [of _ _ _ PyNone] by auto
  have row: "row_has_na (clean_categoricals_row r)"
    using cells assms(1) by (rule clean_row_has_na)
  have drop: "dropna (map clean_categoricals_row (t1 @ r # t2))
          = dropna (map clean_categoricals_row (t1 @ t2))"
    using dropna_removes [OF row, of "map clean_categoricals_row t1" "map clean_categoricals_row t2"]
    by simp
  let ?cleaned = "map clean_categoricals_row (t1 @ r # t2)"
  let ?out = "dropna ?cleaned"
  have c1: "clean_categoricals_auto (Some (t1 @ r # t2)) = Inr (Some ?cleaned)"
    by (simp add: clean_categoricals_auto_def ensure_df_def)
  have c2: "clean_categoricals_row r \<in> set ?cleaned"
    by simp
  have c3: "handle_missing_and_dropna (Some ?cleaned) = Inr (Some ?out)"
    by (simp add: handle_missing_and_dropna_def ensure_df_def)
  have c4: "clean_categoricals_row r \<notin> set ?out"
    using row dropna_complete by blast
  have c5: "\<forall>r' \<in> set ?out. \<not> row_has_na r'"
    using dropna_complete by blast
  have c6: "handle_missing_and_dropna (Some (map clean_categoricals_row (t1 @ t2)))
              = Inr (Some ?out)"
    unfolding drop by (simp add: handle_missing_and_dropna_def ensure_df_def)
  have stages: "\<exists>cleaned out.
               clean_categoricals_auto (Some (t1 @ r # t2)) = Inr (Some cleaned)
               \<and> clean_categoricals_row r \<in> set cleaned
               \<and> handle_missing_and_dropna (Some cleaned) = Inr (Some out)
               \<and> clean_categoricals_row r \<notin> set out
               \<and> (\<forall>r' \<in> set out. \<not> row_has_na r')
               \<and> handle_missing_and_dropna (Some (map clean_categoricals_row (t1 @ t2)))
                   = Inr (Some out)"
    using c1 c2 c3 c4 c5 c6 by blast
  have run: "run_pipeline pd (t1 @ r # t2) = run_pipeline pd (t1 @ t2)"
    unfolding run_pipeline_unfold drop ..
  from cells none row drop stages run show ?thesis by auto
qed

theorem missing_preserved_and_dropped_witness:
  "PyNone \<in> {VehicleModel (example_row\<lparr>VehicleModel := PyNone\<rparr>)}
   \<and> isna PyNone
   \<and> row_has_na (clean_categoricals_row (example_row\<lparr>VehicleModel := PyNone\<rparr>))
   \<and> dropna (map clean_categoricals_row [example_row, example_row\<lparr>VehicleModel := PyNone\<rparr>])
       = dropna (map clean_categoricals_row [example_row])
   \<and> \<not> row_has_na (clean_categoricals_row example_row)
   \<and> (\<exists>cleaned.
         clean_categoricals_auto (Some [example_row, example_row\<lparr>VehicleModel := PyNone\<rparr>])
           = Inr (Some cleaned)
         \<and> length cleaned = 2
         \<and> handle_missing_and_dropna (Some cleaned)
           = Inr (Some [clean_categoricals_row example_row]))
   \<and> run_pipeline example_parsers [example_row, example_row\<lparr>VehicleModel := PyNone\<rparr>]
       = run_pipeline example_parsers [example_row]"
proof -
  let ?r = "example_row\<lparr>VehicleModel := PyNone\<rparr>"
  have h1: "PyNone \<in> {VehicleModel ?r, ChargingStationLocation ?r, TimeOfDay ?r, DayOfWeek ?r,
               ChargerType ?r, UserType ?r}"
    by simp
  have h2: "isna PyNone" by simp
  have full: "\<not> row_has_na (clean_categoricals_row example_row)"
    by (simp add: row_has_na_def clean_categoricals_row_def example_row_def
        clean_categorical_cell_def fillna_Unknown_def replace_by_nan_def get_or_self_def
        normalize_text_def string_eval VEHICLE_ALIASES_def
        LOCATION_ALIASES_def TIME_ALIASES_def DAY_ALIASES_def CHARGER_ALIASES_def
        USER_ALIASES_def VEHICLE_CANON_def LOCATION_CANON_def TIME_CANON_def DAY_CANON_def
        CHARGER_CANON_def USER_CANON_def)
  then have kept: "dropna (map clean_categoricals_row [example_row])
                     = [clean_categoricals_row example_row]"
    by (simp add: dropna_def)
  note inst = missing_preserved_and_dropped [OF h1 h2, of "[example_row]" "[]" example_parsers]
  from inst have a: "row_has_na (clean_categoricals_row ?r)"
    and b: "dropna (map clean_categoricals_row [example_row, ?r])
              = dropna (map clean_categoricals_row [example_row])"
    and e: "run_pipeline example_parsers [example_row, ?r]
              = run_pipeline example_parsers [example_row]"
    by simp_all
  from inst obtain cleaned out where
    c: "clean_categoricals_auto (Some [example_row, ?r]) = Inr (Some cleaned)"
    and d: "handle_missing_and_dropna (Some cleaned) = Inr (Some out)"
    and o: "handle_missing_and_dropna (Some (map clean_categoricals_row [example_row]))
              = Inr (Some out)"
    by auto
  from o kept have "out = [clean_categoricals_row example_row]"
    by (simp add: handle_missing_and_dropna_def ensure_df_def)
  with d have d': "handle_missing_and_dropna (Some cleaned)
                     = Inr (Some [clean_categoricals_row example_row])"
    by simp
  from c have "length cleaned = 2"
    by (auto simp: clean_categoricals_auto_def ensure_df_def)
  with c d' have "\<exists>cleaned.
         clean_categoricals_auto (Some [example_row, ?r]) = Inr (Some cleaned)
         \<and> length cleaned = 2
         \<and> handle_missing_and_dropna (Some cleaned)
           = Inr (Some [clean_categoricals_row example_row])"
    by blast
  with h2 a b full e show ?thesis by simp
qed

section \<open>Texts that read as missing\<close>

text \<open>
  C10, as stated, fails: the text \<open>nan#\<close> is \<open>nan\<close> after trimming, lowercasing,
  hash-stripping and collapsing, but the normalizer compares with \<open>nan\<close> before it
  strips the hashes, so the cell comes out as the text \<open>nan\<close>, not as a missing marker.
\<close>

theorem nan_hash_counterexample:
  "sub_whitespace (strip (sub_trailing_hashes (lower (strip ''nan#'')))) = ''nan''
   \<and> clean_categorical_cell VEHICLE_ALIASES VEHICLE_CANON (PyStr ''nan#'') = PyStr ''nan''
   \<and> \<not> isna (clean_categorical_cell VEHICLE_ALIASES VEHICLE_CANON (PyStr ''nan#''))"
  by (simp add: clean_categorical_cell_def fillna_Unknown_def replace_by_nan_def
      get_or_self_def normalize_text_def string_eval VEHICLE_ALIASES_def VEHICLE_CANON_def)

text \<open>
  C10, amended: a populated cell becomes missing in each of the six columns when its
  text is \<open>unknown\<close> after trimming, lowercasing, hash-stripping and collapsing, or is
  \<open>nan\<close> after trimming and lowercasing alone; the inputs \<open>Unknown\<close>,
  \<open>UNKNOWN##\<close> between spaces and \<open>nan\<close> are such texts. A row with such a cell in
  one of the six columns is removed by the drop.
\<close>

theorem sentinel_texts_become_missing:
  assumes "x \<in> {VehicleModel r, ChargingStationLocation r, TimeOfDay r, DayOfWeek r,
               ChargerType r, UserType r}"
    and "\<not> isna x"
    and "sub_whitespace (strip (sub_trailing_hashes (lower (strip (py_str x))))) = ''unknown''
         \<or> lower (strip (py_str x)) = ''nan''"
  shows "(\<forall>(col, aliases, canon) \<in> set categorical_rules.
            clean_categorical_cell aliases canon x = PyNaN)
         \<and> row_has_na (clean_categoricals_row r)
         \<and> dropna (map clean_categoricals_row (t1 @ r # t2))
             = dropna (map clean_categoricals_row (t1 @ t2))
         \<and> (\<forall>s \<in> {''Unknown'', '' UNKNOWN## '', ''nan''}.
              sub_whitespace (strip (sub_trailing_hashes (lower (strip s)))) = ''unknown''
              \<or> lower (strip s) = ''nan'')"
proof -
  have norm: "normalize_text x = PyNaN \<or> normalize_text x = PyStr ''unknown''"
    using assms(2,3) by (cases x) (auto simp: normalize_text_def Let_def)
  have cells: "\<forall>(col, aliases, canon) \<in> set categorical_rules.
                 clean_categorical_cell aliases canon x = PyNaN"
  proof (clarify)
    fix col aliases canon
    assume rule: "(col, aliases, canon) \<in> set categorical_rules"
    have pass: "get_or_self canon (get_or_self aliases ''unknown'') = ''unknown''"
      using unknown_passes rule by blast
    from norm show "clean_categorical_cell aliases canon x = PyNaN"
    proof
      assume "normalize_text x = PyNaN"
      with assms(2) show ?thesis
        by (simp add: clean_categorical_cell_def fillna_Unknown_def replace_by_nan_def)
    next
      assume "normalize_text x = PyStr ''unknown''"
      with assms(2) pass show ?thesis
        by (simp add: clean_categorical_cell_def fillna_Unknown_def replace_by_nan_def)
    qed
  qed
  have row: "row_has_na (clean_categoricals_row r)"
    using cells assms(1) by (rule clean_row_has_na)
  have drop: "dropna (map clean_categoricals_row (t1 @ r # t2))
          = dropna (map clean_categoricals_row (t1 @ t2))"
    using dropna_removes [OF row, of "map clean_categoricals_row t1" "map clean_categoricals_row t2"]
    by simp
  have ex: "\<forall>s \<in> {''Unknown'', '' UNKNOWN## '', ''nan''}.
              sub_whitespace (strip (sub_trailing_hashes (lower (strip s)))) = ''unknown''
              \<or> lower (strip s) = ''nan''"
    by (simp add: string_eval)
  from cells row drop ex show ?thesis by blast
qed

theorem sentinel_texts_become_missing_witness:
  "\<not> isna (PyStr '' UNKNOWN## '')
   \<and> sub_whitespace (strip (sub_trailing_hashes (lower (strip (py_str (PyStr '' UNKNOWN## '')))))) = ''unknown''
   \<and> clean_categorical_cell CHARGER_ALIASES CHARGER_CANON (PyStr '' UNKNOWN## '') = PyNaN
   \<and> dropna (map clean_categoricals_row [example_row\<lparr>ChargerType := PyStr '' UNKNOWN## ''\<rparr>, example_row])
       = dropna (map clean_categoricals_row [example_row])"
proof -
  let ?x = "PyStr '' UNKNOWN## ''"
  let ?r = "example_row\<lparr>ChargerType := ?x\<rparr>"
  have h1: "?x \<in> {VehicleModel ?r, ChargingStationLocation ?r, TimeOfDay ?r, DayOfWeek ?r,
               ChargerType ?r, UserType ?r}"
    by simp
  have h2: "\<not> isna ?x" by simp
  have h3': "sub_whitespace (strip (sub_trailing_hashes (lower (strip (py_str ?x))))) = ''unknown''"
    by (simp add: string_eval)
  then have h3: "sub_whitespace (strip (sub_trailing_hashes (lower (strip (py_str ?x))))) = ''unknown''
         \<or> lower (strip (py_str ?x)) = ''nan''"
    by (rule disjI1)
  have rule: "(''ChargerType'', CHARGER_ALIASES, CHARGER_CANON) \<in> set categorical_rules"
    by (simp add: categorical_rules_def)
  from sentinel_texts_become_missing [OF h1 h2 h3, of "[]" "[example_row]"] rule
  have "clean_categorical_cell CHARGER_ALIASES CHARGER_CANON ?x = PyNaN"
    and "dropna (map clean_categoricals_row [?r, example_row])
          = dropna (map clean_categoricals_row [example_row])"
    by auto
  with h2 h3' show ?thesis by blast
qed

section \<open>Fixed points of the normalizer\<close>

lemma sub_whitespace_Nil_iff [simp]: "sub_whitespace s = [] \<longleftrightarrow> s = []"
  by (cases s) simp_all

lemma sub_whitespace_hd:
  "s \<noteq> [] \<Longrightarrow> \<not> is_space (hd s) \<Longrightarrow> hd (sub_whitespace s) = hd s"
  by (cases s) simp_all

lemma space_is_space: "is_space CHR '' ''"
  by (simp add: is_space_def)

lemma sub_whitespace_last:
  "s \<noteq> [] \<Longrightarrow> \<not> is_space (last s) \<Longrightarrow> last (sub_whitespace s) = last s"
proof (induction s rule: sub_whitespace.induct)
  case 1
  then show ?case by simp
next
  case (2 c cs)
  show ?case
  proof (cases "is_space c")
    case True
    with "2.prems" have ne: "dropWhile is_space cs \<noteq> []"
      by (cases cs) (auto split: if_splits)
    then have "last (dropWhile is_space cs) = last cs"
      by (metis dropWhile_eq_Nil_conv dropWhile_last)
    moreover have "cs \<noteq> []" using ne by auto
    ultimately show ?thesis
      using True "2.prems" "2.IH"(1) ne by auto
  next
    case False
    with "2.prems" "2.IH"(2) show ?thesis
      by (cases cs) simp_all
  qed
qed

lemma sub_whitespace_set: "set (sub_whitespace s) \<subseteq> insert CHR '' '' (set s)"
proof (induction s rule: sub_whitespace.induct)
  case 1
  then show ?case by simp
next
  case (2 c cs)
  show ?case
  proof (cases "is_space c")
    case True
    with "2.IH"(1) have "set (sub_whitespace (dropWhile is_space cs))
        \<subseteq> insert CHR '' '' (set (dropWhile is_space cs))"
      by simp
    moreover have "set (dropWhile is_space cs) \<subseteq> set cs"
      using set_dropWhileD by fastforce
    ultimately show ?thesis using True by auto
  next
    case False
    with "2.IH"(2) show ?thesis by auto
  qed
qed

lemma sub_whitespace_idem: "sub_whitespace (sub_whitespace s) = sub_whitespace s"
proof (induction s rule: sub_whitespace.induct)
  case 1
  then show ?case by simp
next
  case (2 c cs)
  show ?case
  proof (cases "is_space c")
    case True
    let ?r = "dropWhile is_space cs"
    have "dropWhile is_space (sub_whitespace ?r) = sub_whitespace ?r"
    proof (cases "?r = []")
      case True
      show ?thesis unfolding True by simp
    next
      case False
      then have "\<not> is_space (hd ?r)" by (rule hd_dropWhile)
      with False have "\<not> is_space (hd (sub_whitespace ?r))"
        by (simp add: sub_whitespace_hd)
      then show ?thesis
        by (simp add: dropWhile_eq_self_iff)
    qed
    with True "2.IH"(1) show ?thesis
      by (simp add: space_is_space)
  next
    case False
    with "2.IH"(2) show ?thesis by simp
  qed
qed

lemma lower_char_space: "lower_char CHR '' '' = CHR '' ''"
  by (simp add: lower_char_def)

text \<open>The normal form that the normalizer returns for a text.\<close>

lemma normal_form_props:
  fixes u :: string
  defines "n \<equiv> sub_whitespace (strip (sub_trailing_hashes (lower (strip u))))"
  shows "strip n = n" and "lower n = n" and "sub_whitespace n = n"
    and "n = [] \<or> \<not> is_space (last n)"
proof -
  let ?v = "strip (sub_trailing_hashes (lower (strip u)))"
  have ends: "n = [] \<or> (\<not> is_space (hd n) \<and> \<not> is_space (last n))"
  proof (cases "?v = []")
    case True
    then show ?thesis by (simp add: n_def)
  next
    case False
    then have "\<not> is_space (hd ?v)" "\<not> is_space (last ?v)"
      by (rule strip_hd, rule strip_last)
    with False show ?thesis
      by (simp add: n_def sub_whitespace_hd sub_whitespace_last)
  qed
  then show "strip n = n" by (rule strip_id)
  from ends show "n = [] \<or> \<not> is_space (last n)" by blast
  show "sub_whitespace n = n"
    by (simp add: n_def sub_whitespace_idem)
  have "sub_trailing_hashes (lower (strip u)) = drop_end is_hash (lower (strip u))"
    using lower_strip_last [of u] by (rule sub_trailing_hashes_stripped)
  then have "set ?v \<subseteq> set (lower (strip u))"
    using strip_subset drop_end_subset by (metis subset_trans)
  then have "set n \<subseteq> insert CHR '' '' (set (lower (strip u)))"
    unfolding n_def using sub_whitespace_set by blast
  then have "\<forall>c \<in> set n. lower_char c = c"
    by (auto simp: lower_def lower_char_space)
  then show "lower n = n" by (rule lower_fixed)
qed

lemma normalize_text_fixed:
  assumes "normalize_text x = PyStr n" and "n \<noteq> ''nan''" and "n = [] \<or> \<not> is_hash (last n)"
  shows "normalize_text (PyStr n) = PyStr n"
proof -
  from assms(1) obtain u where n: "n = sub_whitespace (strip (sub_trailing_hashes (lower (strip u))))"
    by (cases x) (auto simp: normalize_text_def Let_def split: if_splits)
  have p: "strip n = n" "lower n = n" "sub_whitespace n = n" "n = [] \<or> \<not> is_space (last n)"
    unfolding n by (rule normal_form_props)+
  have "sub_trailing_hashes n = drop_end is_hash n"
    using p(4) by (rule sub_trailing_hashes_stripped)
  also have "\<dots> = n"
    using assms(3) by (rule drop_end_id)
  finally show ?thesis
    using assms(2) p by (simp add: normalize_text_def)
qed

section \<open>A second cleaning pass\<close>

text \<open>Every canonical label is cleaned to itself.\<close>

lemma vehicle_canon_fixed:
  "\<forall>(k, label) \<in> set VEHICLE_CANON.
     clean_categorical_cell VEHICLE_ALIASES VEHICLE_CANON (PyStr label) = PyStr label"
  by (simp add: VEHICLE_ALIASES_def VEHICLE_CANON_def clean_categorical_cell_def fillna_Unknown_def
      replace_by_nan_def get_or_self_def normalize_text_def string_eval)

lemma location_canon_fixed:
  "\<forall>(k, label) \<in> set LOCATION_CANON.
     clean_categorical_cell LOCATION_ALIASES LOCATION_CANON (PyStr label) = PyStr label"
  by (simp add: LOCATION_ALIASES_def LOCATION_CANON_def clean_categorical_cell_def fillna_Unknown_def
      replace_by_nan_def get_or_self_def normalize_text_def string_eval)

lemma time_canon_fixed:
  "\<forall>(k, label) \<in> set TIME_CANON.
     clean_categorical_cell TIME_ALIASES TIME_CANON (PyStr label) = PyStr label"
  by (simp add: TIME_ALIASES_def TIME_CANON_def clean_categorical_cell_def fillna_Unknown_def
      replace_by_nan_def get_or_self_def normalize_text_def string_eval)

lemma day_canon_fixed:
  "\<forall>(k, label) \<in> set DAY_CANON.
     clean_categorical_cell DAY_ALIASES DAY_CANON (PyStr label) = PyStr label"
  by (simp add: DAY_ALIASES_def DAY_CANON_def clean_categorical_cell_def fillna_Unknown_def
      replace_by_nan_def get_or_self_def normalize_text_def string_eval)

lemma charger_canon_fixed:
  "\<forall>(k, label) \<in> set CHARGER_CANON.
     clean_categorical_cell CHARGER_ALIASES CHARGER_CANON (PyStr label) = PyStr label"
  by (simp add: CHARGER_ALIASES_def CHARGER_CANON_def clean_categorical_cell_def fillna_Unknown_def
      replace_by_nan_def get_or_self_def normalize_text_def string_eval)

lemma user_canon_fixed:
  "\<forall>(k, label) \<in> set USER_CANON.
     clean_categorical_cell USER_ALIASES USER_CANON (PyStr label) = PyStr label"
  by (simp add: USER_ALIASES_def USER_CANON_def clean_categorical_cell_def fillna_Unknown_def
      replace_by_nan_def get_or_self_def normalize_text_def string_eval)

lemma canon_fixed:
  assumes "(col, aliases, canon) \<in> set categorical_rules" and "(k, label) \<in> set canon"
  shows "clean_categorical_cell aliases canon (PyStr label) = PyStr label"
proof -
  from assms(1) consider
    "aliases = VEHICLE_ALIASES" "canon = VEHICLE_CANON"
    | "aliases = LOCATION_ALIASES" "canon = LOCATION_CANON"
    | "aliases = TIME_ALIASES" "canon = TIME_CANON"
    | "aliases = DAY_ALIASES" "canon = DAY_CANON"
    | "aliases = CHARGER_ALIASES" "canon = CHARGER_CANON"
    | "aliases = USER_ALIASES" "canon = USER_CANON"
    by (auto simp: categorical_rules_def)
  then show ?thesis
  proof cases
    case 1
    with assms(2) vehicle_canon_fixed show ?thesis by blast
  next
    case 2
    with assms(2) location_canon_fixed show ?thesis by blast
  next
    case 3
    with assms(2) time_canon_fixed show ?thesis by blast
  next
    case 4
    with assms(2) day_canon_fixed show ?thesis by blast
  next
    case 5
    with assms(2) charger_canon_fixed show ?thesis by blast
  next
    case 6
    with assms(2) user_canon_fixed show ?thesis by blast
  qed
qed

lemma get_or_self_cases:
  "(map_of d k = None \<and> get_or_self d k = k)
   \<or> (\<exists>v. map_of d k = Some v \<and> (k, v) \<in> set d \<and> get_or_self d k = v)"
  by (cases "map_of d k") (auto simp: get_or_self_def dest: map_of_SomeD)

lemma clean_cell_idem:
  assumes rule: "(col, aliases, canon) \<in> set categorical_rules"
    and y: "clean_categorical_cell aliases canon x = y"
    and stable: "\<forall>s. y = PyStr s \<longrightarrow> s \<noteq> ''nan'' \<and> (s = [] \<or> last s \<noteq> CHR ''#'')"
  shows "clean_categorical_cell aliases canon y = y"
proof (cases "normalize_text (fillna_Unknown x)")
  case PyNone
  then show ?thesis
    by (cases "fillna_Unknown x") (simp_all add: normalize_text_def Let_def split: if_splits)
next
  case PyNaN
  with y have "y = PyNaN"
    by (simp add: clean_categorical_cell_def replace_by_nan_def)
  then show ?thesis
    using clean_cell_missing [OF rule, of PyNaN] by simp
next
  case (PyObj t)
  then show ?thesis
    by (cases "fillna_Unknown x") (simp_all add: normalize_text_def Let_def split: if_splits)
next
  case (PyStr n)
  let ?a = "get_or_self aliases n"
  let ?t = "get_or_self canon ?a"
  have y': "y = replace_by_nan ''Unknown'' (replace_by_nan ''unknown'' (PyStr ?t))"
    using y PyStr by (simp add: clean_categorical_cell_def)
  show ?thesis
  proof (cases "?t = ''unknown'' \<or> ?t = ''Unknown''")
    case True
    with y' have "y = PyNaN"
      by (auto simp: replace_by_nan_def)
    then show ?thesis
      using clean_cell_missing [OF rule, of PyNaN] by simp
  next
    case False
    with y' have yt: "y = PyStr ?t"
      by (simp add: replace_by_nan_def)
    have "(\<exists>k. (k, ?t) \<in> set canon) \<or> (?t = n \<and> map_of aliases n = None \<and> map_of canon n = None)"
    proof -
      from get_or_self_cases [of aliases n] show ?thesis
      proof (elim disjE conjE exE)
        assume "map_of aliases n = None" "?a = n"
        with get_or_self_cases [of canon n] show ?thesis by auto
      next
        fix target
        assume "(n, target) \<in> set aliases" "?a = target"
        with alias_chain [OF rule, of n target] have "map_of canon target = Some ?t"
          by simp
        then have "(target, ?t) \<in> set canon" by (rule map_of_SomeD)
        then show ?thesis by blast
      qed
    qed
    then show ?thesis
    proof (elim disjE conjE exE)
      fix k
      assume "(k, ?t) \<in> set canon"
      with rule have "clean_categorical_cell aliases canon (PyStr ?t) = PyStr ?t"
        by (rule canon_fixed)
      with yt show ?thesis by simp
    next
      assume pass: "?t = n" "map_of aliases n = None" "map_of canon n = None"
      with yt stable have "n \<noteq> ''nan''" "n = [] \<or> \<not> is_hash (last n)"
        by (simp_all add: is_hash_def)
      with PyStr have fixed: "normalize_text (PyStr n) = PyStr n"
        by (rule normalize_text_fixed)
      from pass False have "n \<noteq> ''unknown''" "n \<noteq> ''Unknown''"
        by auto
      with fixed pass(2,3) have "clean_categorical_cell aliases canon (PyStr n) = PyStr n"
        by (simp add: clean_categorical_cell_def fillna_Unknown_def replace_by_nan_def
            get_or_self_def)
      with yt pass(1) show ?thesis by simp
    qed
  qed
qed

text \<open>
  C3, as stated, fails: a value that passes through can change in a second pass. The
  first pass removes the run of \<open>#\<close> at the end and trims, which can uncover another
  \<open>#\<close>; the second pass removes that one.
\<close>

theorem second_pass_counterexample:
  "clean_categorical_column VEHICLE_ALIASES VEHICLE_CANON [PyStr ''Tesla# #''] = [PyStr ''tesla#'']
   \<and> clean_categorical_column VEHICLE_ALIASES VEHICLE_CANON [PyStr ''tesla#''] = [PyStr ''tesla'']"
  by (simp add: clean_categorical_column_def VEHICLE_ALIASES_def VEHICLE_CANON_def
      clean_categorical_cell_def fillna_Unknown_def replace_by_nan_def get_or_self_def
      normalize_text_def string_eval)

text \<open>
  C3, amended: for each of the six columns, a second cleaning of a cleaned column gives
  the same column provided no value of the cleaned column is the text \<open>nan\<close> or ends
  with \<open>#\<close>; the canonical labels and the missing marker are fixed points of the
  cleaning without any condition.
\<close>

theorem clean_categorical_column_idempotent:
  assumes "(col, aliases, canon) \<in> set categorical_rules"
    and "\<forall>s. PyStr s \<in> set (clean_categorical_column aliases canon column)
             \<longrightarrow> s \<noteq> ''nan'' \<and> (s = [] \<or> last s \<noteq> CHR ''#'')"
  shows "clean_categorical_column aliases canon (clean_categorical_column aliases canon column)
           = clean_categorical_column aliases canon column
         \<and> (\<forall>(k, label) \<in> set canon.
               clean_categorical_cell aliases canon (PyStr label) = PyStr label)
         \<and> clean_categorical_cell aliases canon PyNaN = PyNaN"
proof -
  have "clean_categorical_cell aliases canon (clean_categorical_cell aliases canon x)
          = clean_categorical_cell aliases canon x" if "x \<in> set column" for x
  proof (rule clean_cell_idem [OF assms(1) refl])
    show "\<forall>s. clean_categorical_cell aliases canon x = PyStr s
            \<longrightarrow> s \<noteq> ''nan'' \<and> (s = [] \<or> last s \<noteq> CHR ''#'')"
    proof (intro allI impI)
      fix s
      assume eq: "clean_categorical_cell aliases canon x = PyStr s"
      have "clean_categorical_cell aliases canon x
              \<in> set (clean_categorical_column aliases canon column)"
        using that by (simp add: clean_categorical_column_def)
      with eq have "PyStr s \<in> set (clean_categorical_column aliases canon column)"
        by simp
      with assms(2) show "s \<noteq> ''nan'' \<and> (s = [] \<or> last s \<noteq> CHR ''#'')"
        by blast
    qed
  qed
  then have "clean_categorical_column aliases canon (clean_categorical_column aliases canon column)
           = clean_categorical_column aliases canon column"
    by (simp add: clean_categorical_column_def)
  moreover have "\<forall>(k, label) \<in> set canon.
               clean_categorical_cell aliases canon (PyStr label) = PyStr label"
    using canon_fixed [OF assms(1)] by blast
  moreover have "clean_categorical_cell aliases canon PyNaN = PyNaN"
    using clean_cell_missing [OF assms(1), of PyNaN] by simp
  ultimately show ?thesis by blast
qed

theorem clean_categorical_column_idempotent_witness:
  "(''VehicleModel'', VEHICLE_ALIASES, VEHICLE_CANON) \<in> set categorical_rules
   \<and> clean_categorical_column VEHICLE_ALIASES VEHICLE_CANON
         [PyStr ''Audi E-Tro  '', PyNone, PyStr ''BMW  i3#'']
       = [PyStr ''Audi e-Tron'', PyNaN, PyStr ''bmw i3'']
   \<and> clean_categorical_column VEHICLE_ALIASES VEHICLE_CANON
         [PyStr ''Audi e-Tron'', PyNaN, PyStr ''bmw i3'']
       = [PyStr ''Audi e-Tron'', PyNaN, PyStr ''bmw i3'']"
proof -
  let ?column = "[PyStr ''Audi E-Tro  '', PyNone, PyStr ''BMW  i3#'']"
  have h1: "(''VehicleModel'', VEHICLE_ALIASES, VEHICLE_CANON) \<in> set categorical_rules"
    by (simp add: categorical_rules_def)
  have first: "clean_categorical_column VEHICLE_ALIASES VEHICLE_CANON ?column
                 = [PyStr ''Audi e-Tron'', PyNaN, PyStr ''bmw i3'']"
    by (simp add: clean_categorical_column_def VEHICLE_ALIASES_def VEHICLE_CANON_def
        clean_categorical_cell_def fillna_Unknown_def replace_by_nan_def get_or_self_def
        normalize_text_def string_eval)
  have h2: "\<forall>s. PyStr s \<in> set (clean_categorical_column VEHICLE_ALIASES VEHICLE_CANON ?column)
             \<longrightarrow> s \<noteq> ''nan'' \<and> (s = [] \<or> last s \<noteq> CHR ''#'')"
    unfolding first by auto
  from clean_categorical_column_idempotent [OF h1 h2] first h1 show ?thesis
    by simp
qed

section \<open>Column conversions\<close>

lemma astype_float_Inr:
  "astype_float ss = Inr vs \<Longrightarrow>
     length vs = length ss \<and> (\<forall>i < length ss. parse_float (ss ! i) = Some (vs ! i))"
proof (induction ss arbitrary: vs)
  case Nil
  then show ?case by simp
next
  case (Cons s ss)
  from Cons.prems obtain v vs' where
    v: "parse_float s = Some v" and vs': "astype_float ss = Inr vs'" and vs: "vs = v # vs'"
    by (auto split: option.splits sum.splits)
  from Cons.IH [OF vs'] have
    len: "length vs' = length ss" and nth: "\<forall>i < length ss. parse_float (ss ! i) = Some (vs' ! i)"
    by simp_all
  show ?case
  proof (intro conjI allI impI)
    show "length vs = length (s # ss)" using len vs by simp
  next
    fix i
    assume "i < length (s # ss)"
    then show "parse_float ((s # ss) ! i) = Some (vs ! i)"
      using v nth vs by (cases i) simp_all
  qed
qed

lemma astype_float_Inl:
  "s \<in> set ss \<Longrightarrow> parse_float s = None \<Longrightarrow> astype_float ss = Inl ParseFailure"
  by (induction ss) (auto split: option.splits sum.splits)

lemma astype_float_error: "astype_float ss = Inl e \<Longrightarrow> e = ParseFailure"
  by (induction ss) (auto split: option.splits sum.splits)

lemma strip_symbols_and_derive_Inr:
  assumes "strip_symbols_and_derive t = Inr t'"
  shows "length t' = length t"
    and "i < length t \<Longrightarrow>
         \<exists>soc_start soc_end cost.
           parse_float (remove_char CHR ''%'' (py_str (StateOfChargeStart (t ! i)))) = Some soc_start
           \<and> parse_float (remove_char CHR ''%'' (py_str (StateOfChargeEnd (t ! i)))) = Some soc_end
           \<and> parse_float (remove_char CHR ''$'' (py_str (ChargingCostUSD (t ! i)))) = Some cost
           \<and> t' ! i = with_features (t ! i) soc_start soc_end cost
                         (PyStr (remove_char CHR ''S'' (py_str (ChargingStationId (t ! i)))))"
proof -
  from assms obtain a b c where
    a: "astype_float (map (\<lambda>r. remove_char CHR ''%'' (py_str (StateOfChargeStart r))) t) = Inr a"
    and b: "astype_float (map (\<lambda>r. remove_char CHR ''%'' (py_str (StateOfChargeEnd r))) t) = Inr b"
    and c: "astype_float (map (\<lambda>r. remove_char CHR ''$'' (py_str (ChargingCostUSD r))) t) = Inr c"
    and t': "t' = map (\<lambda>i. with_features (t ! i) (a ! i) (b ! i) (c ! i)
                 (map (\<lambda>r. PyStr (remove_char CHR ''S'' (py_str (ChargingStationId r)))) t ! i))
               [0..<length t]"
    by (auto simp: strip_symbols_and_derive_def Let_def split: sum.splits)
  show "length t' = length t" by (simp add: t')
  assume i: "i < length t"
  from astype_float_Inr [OF a] astype_float_Inr [OF b] astype_float_Inr [OF c] i
  have "parse_float (remove_char CHR ''%'' (py_str (StateOfChargeStart (t ! i)))) = Some (a ! i)"
    "parse_float (remove_char CHR ''%'' (py_str (StateOfChargeEnd (t ! i)))) = Some (b ! i)"
    "parse_float (remove_char CHR ''$'' (py_str (ChargingCostUSD (t ! i)))) = Some (c ! i)"
    by simp_all
  moreover have "t' ! i = with_features (t ! i) (a ! i) (b ! i) (c ! i)
                         (PyStr (remove_char CHR ''S'' (py_str (ChargingStationId (t ! i)))))"
    using i by (simp add: t')
  ultimately show "\<exists>soc_start soc_end cost.
           parse_float (remove_char CHR ''%'' (py_str (StateOfChargeStart (t ! i)))) = Some soc_start
           \<and> parse_float (remove_char CHR ''%'' (py_str (StateOfChargeEnd (t ! i)))) = Some soc_end
           \<and> parse_float (remove_char CHR ''$'' (py_str (ChargingCostUSD (t ! i)))) = Some cost
           \<and> t' ! i = with_features (t ! i) soc_start soc_end cost
                         (PyStr (remove_char CHR ''S'' (py_str (ChargingStationId (t ! i)))))"
    by blast
qed

lemmas float_eval =
  parse_float_def parse_decimal_def mantissa_ok_def exponent_of_def pow10_def digits_val_def
  digit_val_def is_digit_def remove_char_def

section \<open>Symbol stripping\<close>

text \<open>
  C8: when the stage succeeds, each state of charge of the new table is the float read
  from the old cell's text without its \<open>%\<close> characters, the cost is the float read
  from the text without its \<open>$\<close> characters, and the station id is the old text
  without its \<open>S\<close> characters, still a text. So \<open>20%\<close> becomes 20.0, \<open>$10.50\<close>
  becomes 10.5 and \<open>S123\<close> becomes the text \<open>123\<close>.
\<close>

theorem symbol_stripping:
  assumes "strip_symbols_and_derive t = Inr t'" and "i < length t"
  shows "parse_float (filter (\<lambda>c. c \<noteq> CHR ''%'') (py_str (StateOfChargeStart (t ! i))))
           = Some (StateOfChargeStart (t' ! i))
         \<and> parse_float (filter (\<lambda>c. c \<noteq> CHR ''%'') (py_str (StateOfChargeEnd (t ! i))))
           = Some (StateOfChargeEnd (t' ! i))
         \<and> parse_float (filter (\<lambda>c. c \<noteq> CHR ''$'') (py_str (ChargingCostUSD (t ! i))))
           = Some (ChargingCostUSD (t' ! i))
         \<and> ChargingStationId (t' ! i)
           = PyStr (filter (\<lambda>c. c \<noteq> CHR ''S'') (py_str (ChargingStationId (t ! i))))
         \<and> (StateOfChargeStart (t ! i) = PyStr ''20%'' \<longrightarrow> StateOfChargeStart (t' ! i) = Fin 20)
         \<and> (ChargingCostUSD (t ! i) = PyStr ''$10.50'' \<longrightarrow> ChargingCostUSD (t' ! i) = Fin (21 / 2))
         \<and> (ChargingStationId (t ! i) = PyStr ''S123'' \<longrightarrow> ChargingStationId (t' ! i) = PyStr ''123'')"
proof -
  from strip_symbols_and_derive_Inr(2) [OF assms] obtain soc_start soc_end cost where
    s: "parse_float (remove_char CHR ''%'' (py_str (StateOfChargeStart (t ! i)))) = Some soc_start"
    and e: "parse_float (remove_char CHR ''%'' (py_str (StateOfChargeEnd (t ! i)))) = Some soc_end"
    and c: "parse_float (remove_char CHR ''$'' (py_str (ChargingCostUSD (t ! i)))) = Some cost"
    and r: "t' ! i = with_features (t ! i) soc_start soc_end cost
                         (PyStr (remove_char CHR ''S'' (py_str (ChargingStationId (t ! i)))))"
    by blast
  have sel: "StateOfChargeStart (t' ! i) = soc_start" "StateOfChargeEnd (t' ! i) = soc_end"
    "ChargingCostUSD (t' ! i) = cost"
    "ChargingStationId (t' ! i) = PyStr (remove_char CHR ''S'' (py_str (ChargingStationId (t ! i))))"
    by (simp_all add: r with_features_def)
  have ex1: "parse_float (remove_char CHR ''%'' ''20%'') = Some (Fin 20)"
    by (simp add: float_eval string_eval)
  have ex2: "parse_float (remove_char CHR ''$'' ''$10.50'') = Some (Fin (21 / 2))"
    by (simp add: float_eval string_eval)
  have ex3: "remove_char CHR ''S'' ''S123'' = ''123''"
    by (simp add: remove_char_def)
  have "StateOfChargeStart (t ! i) = PyStr ''20%'' \<longrightarrow> StateOfChargeStart (t' ! i) = Fin 20"
    using s ex1 sel(1) by auto
  moreover have "ChargingCostUSD (t ! i) = PyStr ''$10.50'' \<longrightarrow> ChargingCostUSD (t' ! i) = Fin (21 / 2)"
    using c ex2 sel(3) by auto
  moreover have "ChargingStationId (t ! i) = PyStr ''S123'' \<longrightarrow> ChargingStationId (t' ! i) = PyStr ''123''"
    using ex3 sel(4) by auto
  ultimately show ?thesis
    using s e c sel by (simp add: remove_char_def)
qed

lemma example_split_features:
  "strip_symbols_and_derive
     [with_dates example_row (Value (Date 2024 1 1)) (Value (Time 8 0 0))
        (Value (Date 2024 1 1)) (Value (Time 9 30 0))]
   = Inr [with_features
            (with_dates example_row (Value (Date 2024 1 1)) (Value (Time 8 0 0))
               (Value (Date 2024 1 1)) (Value (Time 9 30 0)))
            (Fin 20) (Fin 80) (Fin (21 / 2)) (PyStr ''123'')]"
  by (simp add: strip_symbols_and_derive_def with_dates_def example_row_def float_eval string_eval)

theorem symbol_stripping_witness:
  "(\<exists>r'. strip_symbols_and_derive
            [with_dates example_row (Value (Date 2024 1 1)) (Value (Time 8 0 0))
               (Value (Date 2024 1 1)) (Value (Time 9 30 0))] = Inr [r']
         \<and> StateOfChargeStart r' = Fin 20
         \<and> ChargingCostUSD r' = Fin (21 / 2)
         \<and> ChargingStationId r' = PyStr ''123'')
   \<and> (0 :: nat) < length [example_row]"
proof -
  let ?r = "with_dates example_row (Value (Date 2024 1 1)) (Value (Time 8 0 0))
               (Value (Date 2024 1 1)) (Value (Time 9 30 0))"
  let ?r' = "with_features ?r (Fin 20) (Fin 80) (Fin (21 / 2)) (PyStr ''123'')"
  have h1: "strip_symbols_and_derive [?r] = Inr [?r']"
    by (rule example_split_features)
  have h2: "0 < length [?r]" by simp
  have cells: "StateOfChargeStart ([?r] ! 0) = PyStr ''20%''"
    "ChargingCostUSD ([?r] ! 0) = PyStr ''$10.50''"
    "ChargingStationId ([?r] ! 0) = PyStr ''S123''"
    by (simp_all add: with_dates_def example_row_def)
  from symbol_stripping [OF h1 h2] cells have
    "StateOfChargeStart ?r' = Fin 20 \<and> ChargingCostUSD ?r' = Fin (21 / 2)
     \<and> ChargingStationId ?r' = PyStr ''123''"
    by simp
  with h1 show ?thesis by auto
qed

section \<open>Derived features\<close>



section \<open>Splitting the date-time columns\<close>

lemma to_datetime_elem_error: "to_datetime_elem p x = Inl e \<Longrightarrow> e = ParseFailure"
  by (cases x) (auto split: parsed.splits)

lemma to_datetime_error: "to_datetime p xs = Inl e \<Longrightarrow> e = ParseFailure"
  by (induction xs arbitrary: e) (auto split: sum.splits dest: to_datetime_elem_error)

lemma to_datetime_Inl:
  "x \<in> set xs \<Longrightarrow> to_datetime_elem p x = Inl e \<Longrightarrow> to_datetime p xs = Inl ParseFailure"
proof (induction xs)
  case Nil
  then show ?case by simp
next
  case (Cons y ys)
  show ?case
  proof (cases "to_datetime_elem p y")
    case (Inl e')
    then show ?thesis
      using to_datetime_elem_error by fastforce
  next
    case (Inr v)
    with Cons have "to_datetime p ys = Inl ParseFailure" by auto
    with Inr show ?thesis by simp
  qed
qed

lemma to_datetime_Inr:
  "to_datetime p xs = Inr ys \<Longrightarrow>
     length ys = length xs \<and> (\<forall>i < length xs. to_datetime_elem p (xs ! i) = Inr (ys ! i))"
proof (induction xs arbitrary: ys)
  case Nil
  then show ?case by simp
next
  case (Cons x xs)
  from Cons.prems obtain v vs where
    v: "to_datetime_elem p x = Inr v" and vs: "to_datetime p xs = Inr vs" and ys: "ys = v # vs"
    by (auto split: sum.splits)
  from Cons.IH [OF vs] have
    len: "length vs = length xs"
    and nth: "\<forall>i < length xs. to_datetime_elem p (xs ! i) = Inr (vs ! i)"
    by simp_all
  show ?case
  proof (intro conjI allI impI)
    show "length ys = length (x # xs)" using len ys by simp
  next
    fix i
    assume "i < length (x # xs)"
    then show "to_datetime_elem p ((x # xs) ! i) = Inr (ys ! i)"
      using v nth ys by (cases i) simp_all
  qed
qed

lemma split_datetime_columns_Inr:
  assumes "split_datetime_columns pd t = Inr t'"
  shows "length t' = length t"
    and "i < length t \<Longrightarrow>
         \<exists>sd st ed et.
           to_datetime_elem (start_date_parser pd) (str_split_get 0 (ChargingStartTime (t ! i))) = Inr sd
           \<and> to_datetime_elem (time_parser pd) (str_split_get 1 (ChargingStartTime (t ! i))) = Inr st
           \<and> to_datetime_elem (end_date_parser pd) (str_split_get 0 (ChargingEndTime (t ! i))) = Inr ed
           \<and> to_datetime_elem (time_parser pd)
               (map_option sub_fraction (str_split_get 1 (ChargingEndTime (t ! i)))) = Inr et
           \<and> t' ! i = with_dates (t ! i) sd st ed et"
proof -
  from assms obtain sd ed st et where
    sd: "to_datetime (start_date_parser pd)
           (map (\<lambda>r. str_split_get 0 (ChargingStartTime r)) t) = Inr sd"
    and ed: "to_datetime (end_date_parser pd)
           (map (\<lambda>r. str_split_get 0 (ChargingEndTime r)) t) = Inr ed"
    and st: "to_datetime (time_parser pd)
           (map (\<lambda>r. str_split_get 1 (ChargingStartTime r)) t) = Inr st"
    and et: "to_datetime (time_parser pd)
           (map (\<lambda>r. map_option sub_fraction (str_split_get 1 (ChargingEndTime r))) t) = Inr et"
    and t': "t' = map (\<lambda>i. with_dates (t ! i) (sd ! i) (st ! i) (ed ! i) (et ! i)) [0..<length t]"
    by (auto simp: split_datetime_columns_def Let_def split: sum.splits)
  show "length t' = length t" by (simp add: t')
  assume i: "i < length t"
  from to_datetime_Inr [OF sd] to_datetime_Inr [OF ed] to_datetime_Inr [OF st]
    to_datetime_Inr [OF et] i
  have "to_datetime_elem (start_date_parser pd) (str_split_get 0 (ChargingStartTime (t ! i))) = Inr (sd ! i)"
    "to_datetime_elem (time_parser pd) (str_split_get 1 (ChargingStartTime (t ! i))) = Inr (st ! i)"
    "to_datetime_elem (end_date_parser pd) (str_split_get 0 (ChargingEndTime (t ! i))) = Inr (ed ! i)"
    "to_datetime_elem (time_parser pd)
       (map_option sub_fraction (str_split_get 1 (ChargingEndTime (t ! i)))) = Inr (et ! i)"
    by simp_all
  moreover have "t' ! i = with_dates (t ! i) (sd ! i) (st ! i) (ed ! i) (et ! i)"
    using i by (simp add: t')
  ultimately show "\<exists>sd st ed et.
           to_datetime_elem (start_date_parser pd) (str_split_get 0 (ChargingStartTime (t ! i))) = Inr sd
           \<and> to_datetime_elem (time_parser pd) (str_split_get 1 (ChargingStartTime (t ! i))) = Inr st
           \<and> to_datetime_elem (end_date_parser pd) (str_split_get 0 (ChargingEndTime (t ! i))) = Inr ed
           \<and> to_datetime_elem (time_parser pd)
               (map_option sub_fraction (str_split_get 1 (ChargingEndTime (t ! i)))) = Inr et
           \<and> t' ! i = with_dates (t ! i) sd st ed et"
    by blast
qed

lemma split_datetime_columns_error: "split_datetime_columns pd t = Inl e \<Longrightarrow> e = ParseFailure"
  by (auto simp: split_datetime_columns_def Let_def split: sum.splits dest: to_datetime_error)

lemma split_datetime_columns_Inl:
  assumes "r \<in> set t"
    and "to_datetime_elem (start_date_parser pd) (str_split_get 0 (ChargingStartTime r)) = Inl e
         \<or> to_datetime_elem (time_parser pd) (str_split_get 1 (ChargingStartTime r)) = Inl e
         \<or> to_datetime_elem (end_date_parser pd) (str_split_get 0 (ChargingEndTime r)) = Inl e
         \<or> to_datetime_elem (time_parser pd)
              (map_option sub_fraction (str_split_get 1 (ChargingEndTime r))) = Inl e"
  shows "split_datetime_columns pd t = Inl ParseFailure"
proof (cases "split_datetime_columns pd t")
  case (Inl e')
  then show ?thesis using split_datetime_columns_error by blast
next
  case (Inr t')
  from assms(1) obtain i where i: "i < length t" and r: "r = t ! i"
    by (auto simp: in_set_conv_nth)
  from split_datetime_columns_Inr(2) [OF Inr i] assms(2) show ?thesis
    unfolding r by auto
qed

lemma length_split_on: "length (split_on c s) = Suc (length (filter (\<lambda>x. x = c) s))"
  by (induction s) (auto split: list.splits)

lemma str_split_get_time_None:
  "str_split_get 1 (PyStr s) = None \<longleftrightarrow> CHR '' '' \<notin> set s"
proof -
  have "length (filter (\<lambda>x. x = CHR '' '') s) = 0 \<longleftrightarrow> CHR '' '' \<notin> set s"
    by (auto simp: filter_empty_conv)
  then show ?thesis
    by (auto simp: Let_def length_split_on)
qed

lemmas parser_eval =
  example_parsers_def iso_date_def hms_time_def all_digits_def digits_val_def digit_val_def
  is_digit_def

lemma missing_time_token_like:
  "\<exists>t'. split_datetime_columns example_parsers
          [example_row\<lparr>ChargingStartTime := PyStr ''2024-01-01''\<rparr>, example_row] = Inr t'"
  by (simp add: split_datetime_columns_def parser_eval example_row_def Let_def to_line_end_def)

text \<open>
  C5, as stated, fails: a start text without a space has no time token; the stage raises
  nothing and leaves the row with a missing start time.
\<close>

theorem missing_time_token_counterexample:
  "CHR '' '' \<notin> set ''2024-01-01''
   \<and> split_datetime_columns example_parsers
        [example_row\<lparr>ChargingStartTime := PyStr ''2024-01-01''\<rparr>, example_row]
      = Inr [with_dates (example_row\<lparr>ChargingStartTime := PyStr ''2024-01-01''\<rparr>)
               (Value (Date 2024 1 1)) NaT (Value (Date 2024 1 1)) (Value (Time 9 30 0)),
             with_dates example_row
               (Value (Date 2024 1 1)) (Value (Time 8 0 0)) (Value (Date 2024 1 1))
               (Value (Time 9 30 0))]"
  by (simp add: split_datetime_columns_def parser_eval example_row_def Let_def to_line_end_def)

text \<open>
  C5, amended: when a row has a date or time token and \<open>pd.to_datetime\<close> rejects it, the
  stage raises, and so does the whole run; no row is recovered. A cell that has no such
  token raises nothing: the stage succeeds and the time of that row is \<open>NaT\<close>. A text
  has no time token exactly when it has no space.
\<close>

theorem datetime_split_errors:
  "(r \<in> set t
      \<and> ((\<exists>s. str_split_get 0 (ChargingStartTime r) = Some s \<and> start_date_parser pd s = Rejected)
         \<or> (\<exists>s. str_split_get 1 (ChargingStartTime r) = Some s \<and> time_parser pd s = Rejected)
         \<or> (\<exists>s. str_split_get 0 (ChargingEndTime r) = Some s \<and> end_date_parser pd s = Rejected)
         \<or> (\<exists>s. str_split_get 1 (ChargingEndTime r) = Some s
                \<and> time_parser pd (sub_fraction s) = Rejected))
      \<longrightarrow> split_datetime_columns pd t = Inl ParseFailure
          \<and> process_datetime_columns pd (Some t) = Inl ParseFailure
          \<and> (\<forall>t0. dropna (map clean_categoricals_row t0) = t
                \<longrightarrow> run_pipeline pd t0 = Inl ParseFailure))
   \<and> (split_datetime_columns pd t = Inr t' \<and> i < length t
      \<longrightarrow> (str_split_get 1 (ChargingStartTime (t ! i)) = None
             \<longrightarrow> ChargingStartTime (t' ! i) = NaT)
          \<and> (str_split_get 1 (ChargingEndTime (t ! i)) = None
             \<longrightarrow> ChargingEndTime (t' ! i) = NaT))
   \<and> (str_split_get 1 (PyStr s) = None \<longleftrightarrow> CHR '' '' \<notin> set s)"
proof (intro conjI impI)
  assume a: "r \<in> set t
      \<and> ((\<exists>s. str_split_get 0 (ChargingStartTime r) = Some s \<and> start_date_parser pd s = Rejected)
         \<or> (\<exists>s. str_split_get 1 (ChargingStartTime r) = Some s \<and> time_parser pd s = Rejected)
         \<or> (\<exists>s. str_split_get 0 (ChargingEndTime r) = Some s \<and> end_date_parser pd s = Rejected)
         \<or> (\<exists>s. str_split_get 1 (ChargingEndTime r) = Some s
                \<and> time_parser pd (sub_fraction s) = Rejected))"
  then have
    "to_datetime_elem (start_date_parser pd) (str_split_get 0 (ChargingStartTime r)) = Inl ParseFailure
     \<or> to_datetime_elem (time_parser pd) (str_split_get 1 (ChargingStartTime r)) = Inl ParseFailure
     \<or> to_datetime_elem (end_date_parser pd) (str_split_get 0 (ChargingEndTime r)) = Inl ParseFailure
     \<or> to_datetime_elem (time_parser pd)
          (map_option sub_fraction (str_split_get 1 (ChargingEndTime r))) = Inl ParseFailure"
    by auto
  with a have fail: "split_datetime_columns pd t = Inl ParseFailure"
    using split_datetime_columns_Inl by blast
  then show "split_datetime_columns pd t = Inl ParseFailure" .
  from fail show "process_datetime_columns pd (Some t) = Inl ParseFailure"
    by (simp add: process_datetime_columns_def ensure_df_def)
  from fail show "\<forall>t0. dropna (map clean_categoricals_row t0) = t
                \<longrightarrow> run_pipeline pd t0 = Inl ParseFailure"
    by (auto simp: run_pipeline_unfold)
next
  assume b: "split_datetime_columns pd t = Inr t' \<and> i < length t"
  then obtain sd st ed et where
    st: "to_datetime_elem (time_parser pd) (str_split_get 1 (ChargingStartTime (t ! i))) = Inr st"
    and et: "to_datetime_elem (time_parser pd)
               (map_option sub_fraction (str_split_get 1 (ChargingEndTime (t ! i)))) = Inr et"
    and row: "t' ! i = with_dates (t ! i) sd st ed et"
    using split_datetime_columns_Inr(2) by blast
  {
    assume "str_split_get 1 (ChargingStartTime (t ! i)) = None"
    with st row show "ChargingStartTime (t' ! i) = NaT"
      by (simp add: with_dates_def)
  }
  {
    assume "str_split_get 1 (ChargingEndTime (t ! i)) = None"
    with et row show "ChargingEndTime (t' ! i) = NaT"
      by (simp add: with_dates_def)
  }
next
  show "str_split_get 1 (PyStr s) = None \<longleftrightarrow> CHR '' '' \<notin> set s"
    by (rule str_split_get_time_None)
qed

theorem datetime_split_errors_witness:
  "example_row\<lparr>ChargingEndTime := PyStr ''2024-01-01 25:61:00''\<rparr>
     \<in> set [example_row, example_row\<lparr>ChargingEndTime := PyStr ''2024-01-01 25:61:00''\<rparr>]
   \<and> str_split_get 1 (PyStr ''2024-01-01 25:61:00'') = Some ''25:61:00''
   \<and> time_parser example_parsers (sub_fraction ''25:61:00'') = Rejected
   \<and> split_datetime_columns example_parsers
        [example_row, example_row\<lparr>ChargingEndTime := PyStr ''2024-01-01 25:61:00''\<rparr>]
      = Inl ParseFailure
   \<and> (\<exists>t'. split_datetime_columns example_parsers
              [example_row\<lparr>ChargingStartTime := PyStr ''2024-01-01''\<rparr>, example_row] = Inr t'
            \<and> (0 :: nat) < length [example_row\<lparr>ChargingStartTime := PyStr ''2024-01-01''\<rparr>, example_row]
            \<and> str_split_get 1 (PyStr ''2024-01-01'') = None
            \<and> ChargingStartTime (t' ! 0) = NaT)"
proof -
  let ?bad = "example_row\<lparr>ChargingEndTime := PyStr ''2024-01-01 25:61:00''\<rparr>"
  let ?short = "example_row\<lparr>ChargingStartTime := PyStr ''2024-01-01''\<rparr>"
  have m: "?bad \<in> set [example_row, ?bad]" by simp
  have tok: "str_split_get 1 (PyStr ''2024-01-01 25:61:00'') = Some ''25:61:00''"
    by simp
  have rej: "time_parser example_parsers (sub_fraction ''25:61:00'') = Rejected"
    by (simp add: parser_eval to_line_end_def)
  have "str_split_get 1 (ChargingEndTime ?bad) = Some ''25:61:00''
        \<and> time_parser example_parsers (sub_fraction ''25:61:00'') = Rejected"
    using tok rej by simp
  with m datetime_split_errors [of ?bad "[example_row, ?bad]" example_parsers]
  have fail: "split_datetime_columns example_parsers [example_row, ?bad] = Inl ParseFailure"
    by blast
  obtain t' where ok: "split_datetime_columns example_parsers [?short, example_row] = Inr t'"
    using missing_time_token_like by blast
  have none: "str_split_get 1 (PyStr ''2024-01-01'') = None"
    by simp
  then have "str_split_get 1 (ChargingStartTime ([?short, example_row] ! 0)) = None"
    by simp
  with ok datetime_split_errors [of _ "[?short, example_row]" example_parsers t' 0]
  have "ChargingStartTime (t' ! 0) = NaT"
    by simp
  with m tok rej fail ok none show ?thesis by auto
qed

section \<open>Missing values after the whole pipeline\<close>

lemma fmul_60_not_na: "\<not> fisna h \<Longrightarrow> \<not> fisna (fmul h (Fin 60))"
  by (cases h) auto

text \<open>The two later stages on a table of two rows, from the cells they read.\<close>

lemma split_datetime_columns_pair:
  assumes "ChargingStartTime r1 = PyStr ''2024-01-01''"
    and "ChargingEndTime r1 = PyStr ''2024-01-01 09:30:00.0''"
    and "ChargingStartTime r2 = PyStr ''2024-01-01 08:00:00''"
    and "ChargingEndTime r2 = PyStr ''2024-01-01 09:30:00.0''"
  shows "split_datetime_columns example_parsers [r1, r2] =
           Inr [with_dates r1 (Value (Date 2024 1 1)) NaT
                  (Value (Date 2024 1 1)) (Value (Time 9 30 0)),
                with_dates r2 (Value (Date 2024 1 1)) (Value (Time 8 0 0))
                  (Value (Date 2024 1 1)) (Value (Time 9 30 0))]"
  by (simp add: split_datetime_columns_def parser_eval assms Let_def to_line_end_def)

lemma strip_symbols_and_derive_pair:
  assumes "StateOfChargeStart r1 = PyStr ''20%''" and "StateOfChargeEnd r1 = PyStr ''80%''"
    and "ChargingCostUSD r1 = PyStr ''$10.50''" and "ChargingStationId r1 = PyStr ''S123''"
    and "StateOfChargeStart r2 = PyStr ''20%''" and "StateOfChargeEnd r2 = PyStr ''80%''"
    and "ChargingCostUSD r2 = PyStr ''$10.50''" and "ChargingStationId r2 = PyStr ''S123''"
  shows "strip_symbols_and_derive [r1, r2] =
           Inr [with_features r1 (Fin 20) (Fin 80) (Fin (21 / 2)) (PyStr ''123''),
                with_features r2 (Fin 20) (Fin 80) (Fin (21 / 2)) (PyStr ''123'')]"
  by (simp add: strip_symbols_and_derive_def assms float_eval string_eval)

lemma example_row_cleaned:
  "clean_categoricals_row example_row =
     example_row\<lparr>VehicleModel := PyStr ''Audi e-Tron'',
                 ChargingStationLocation := PyStr ''Seattle'',
                 TimeOfDay := PyStr ''Morning'',
                 DayOfWeek := PyStr ''Monday'',
                 ChargerType := PyStr ''Dc Fast Charger'',
                 UserType := PyStr ''Commuter''\<rparr>"
proof -
  have "clean_categorical_cell VEHICLE_ALIASES VEHICLE_CANON (PyStr ''Audi E-Tro  '')
          = PyStr ''Audi e-Tron''"
    "clean_categorical_cell LOCATION_ALIASES LOCATION_CANON (PyStr ''Seattle#'')
          = PyStr ''Seattle''"
    "clean_categorical_cell TIME_ALIASES TIME_CANON (PyStr ''Mornin'') = PyStr ''Morning''"
    "clean_categorical_cell DAY_ALIASES DAY_CANON (PyStr ''monday'') = PyStr ''Monday''"
    "clean_categorical_cell CHARGER_ALIASES CHARGER_CANON (PyStr ''DC Fast Charge'')
          = PyStr ''Dc Fast Charger''"
    "clean_categorical_cell USER_ALIASES USER_CANON (PyStr ''Commute'') = PyStr ''Commuter''"
    by (simp_all add: clean_categorical_cell_def fillna_Unknown_def replace_by_nan_def
        get_or_self_def normalize_text_def string_eval VEHICLE_ALIASES_def
        LOCATION_ALIASES_def TIME_ALIASES_def DAY_ALIASES_def CHARGER_ALIASES_def
        USER_ALIASES_def VEHICLE_CANON_def LOCATION_CANON_def TIME_CANON_def DAY_CANON_def
        CHARGER_CANON_def USER_CANON_def)
  then show ?thesis
    by (simp add: clean_categoricals_row_def example_row_def)
qed

lemma example_short_cleaned:
  "clean_categoricals_row (example_row\<lparr>ChargingStartTime := PyStr ''2024-01-01''\<rparr>) =
     (clean_categoricals_row example_row)\<lparr>ChargingStartTime := PyStr ''2024-01-01''\<rparr>"
  by (simp add: clean_categoricals_row_def)

lemma example_dropna:
  "dropna (map clean_categoricals_row
             [example_row\<lparr>ChargingStartTime := PyStr ''2024-01-01''\<rparr>, example_row])
   = [clean_categoricals_row (example_row\<lparr>ChargingStartTime := PyStr ''2024-01-01''\<rparr>),
      clean_categoricals_row example_row]"
proof -
  have n1: "\<not> row_has_na
               (clean_categoricals_row (example_row\<lparr>ChargingStartTime := PyStr ''2024-01-01''\<rparr>))"
    unfolding example_short_cleaned example_row_cleaned
    by (simp add: row_has_na_def example_row_def)
  have n2: "\<not> row_has_na (clean_categoricals_row example_row)"
    unfolding example_row_cleaned
    by (simp add: row_has_na_def example_row_def)
  show ?thesis
    by (simp add: dropna_def n1 n2)
qed

lemma example_pipeline_run:
  "run_pipeline example_parsers
     [example_row\<lparr>ChargingStartTime := PyStr ''2024-01-01''\<rparr>, example_row] =
   Inr (Some
     [with_features
        (with_dates (clean_categoricals_row (example_row\<lparr>ChargingStartTime := PyStr ''2024-01-01''\<rparr>))
           (Value (Date 2024 1 1)) NaT (Value (Date 2024 1 1)) (Value (Time 9 30 0)))
        (Fin 20) (Fin 80) (Fin (21 / 2)) (PyStr ''123''),
      with_features
        (with_dates (clean_categoricals_row example_row)
           (Value (Date 2024 1 1)) (Value (Time 8 0 0)) (Value (Date 2024 1 1))
           (Value (Time 9 30 0)))
        (Fin 20) (Fin 80) (Fin (21 / 2)) (PyStr ''123'')])"
proof -
  let ?c1 = "clean_categoricals_row (example_row\<lparr>ChargingStartTime := PyStr ''2024-01-01''\<rparr>)"
  let ?c2 = "clean_categoricals_row example_row"
  let ?d1 = "with_dates ?c1 (Value (Date 2024 1 1)) NaT (Value (Date 2024 1 1)) (Value (Time 9 30 0))"
  let ?d2 = "with_dates ?c2 (Value (Date 2024 1 1)) (Value (Time 8 0 0)) (Value (Date 2024 1 1))
               (Value (Time 9 30 0))"
  have split: "split_datetime_columns example_parsers [?c1, ?c2] = Inr [?d1, ?d2]"
    by (rule split_datetime_columns_pair)
      (simp_all add: clean_categoricals_row_def example_row_def)
  have feat: "strip_symbols_and_derive [?d1, ?d2] =
           Inr [with_features ?d1 (Fin 20) (Fin 80) (Fin (21 / 2)) (PyStr ''123''),
                with_features ?d2 (Fin 20) (Fin 80) (Fin (21 / 2)) (PyStr ''123'')]"
    by (rule strip_symbols_and_derive_pair)
      (simp_all add: with_dates_def clean_categoricals_row_def example_row_def)
  show ?thesis
    unfolding run_pipeline_unfold example_dropna by (simp only: split feat sum.case)
qed

text \<open>
  C1, as stated, fails: a row without any missing value whose start text has no space
  passes the drop, and the pipeline completes with a missing start time in that row.
\<close>

theorem pipeline_reintroduces_missing_counterexample:
  "\<not> row_has_na (example_row\<lparr>ChargingStartTime := PyStr ''2024-01-01''\<rparr>)
   \<and> run_pipeline example_parsers
        [example_row\<lparr>ChargingStartTime := PyStr ''2024-01-01''\<rparr>, example_row] =
      Inr (Some
        [with_features
        (with_dates (clean_categoricals_row (example_row\<lparr>ChargingStartTime := PyStr ''2024-01-01''\<rparr>))
           (Value (Date 2024 1 1)) NaT (Value (Date 2024 1 1)) (Value (Time 9 30 0)))
        (Fin 20) (Fin 80) (Fin (21 / 2)) (PyStr ''123''),
         with_features
        (with_dates (clean_categoricals_row example_row)
           (Value (Date 2024 1 1)) (Value (Time 8 0 0)) (Value (Date 2024 1 1))
           (Value (Time 9 30 0)))
        (Fin 20) (Fin 80) (Fin (21 / 2)) (PyStr ''123'')])
   \<and> final_row_has_na
        (with_features
        (with_dates (clean_categoricals_row (example_row\<lparr>ChargingStartTime := PyStr ''2024-01-01''\<rparr>))
           (Value (Date 2024 1 1)) NaT (Value (Date 2024 1 1)) (Value (Time 9 30 0)))
        (Fin 20) (Fin 80) (Fin (21 / 2)) (PyStr ''123''))"
proof -
  have "\<not> row_has_na (example_row\<lparr>ChargingStartTime := PyStr ''2024-01-01''\<rparr>)"
    by (simp add: row_has_na_def example_row_def)
  moreover have "final_row_has_na
        (with_features
        (with_dates (clean_categoricals_row (example_row\<lparr>ChargingStartTime := PyStr ''2024-01-01''\<rparr>))
           (Value (Date 2024 1 1)) NaT (Value (Date 2024 1 1)) (Value (Time 9 30 0)))
        (Fin 20) (Fin 80) (Fin (21 / 2)) (PyStr ''123''))"
    by (simp add: final_row_has_na_def with_features_def with_dates_def)
  ultimately show ?thesis
    using example_pipeline_run by blast
qed

text \<open>
  C1, amended: the drop removes every row with a missing value, so right after it no
  row has one. In the table that the whole pipeline returns, no row has a missing value
  in a column that the later stages leave alone or compute without parsing text: the
  six categorical columns, the seven numeric columns, the station id and the duration
  in minutes. A missing value of a final row can only be a date or time that
  \<open>pd.to_datetime\<close> left as \<open>NaT\<close>, a state of charge or cost whose text reads as
  NaN, or the charge difference computed from them.
\<close>

theorem pipeline_missing_values:
  "(\<forall>r \<in> set (dropna u). \<not> row_has_na r)
   \<and> (\<forall>r \<in> set u. row_has_na r \<longrightarrow> r \<notin> set (dropna u))
   \<and> (run_pipeline pd t = Inr (Some out) \<and> r \<in> set out \<longrightarrow>
           \<not> isna (VehicleModel r)
           \<and> \<not> fisna (BatteryCapacityKWh r)
           \<and> \<not> isna (ChargingStationId r)
           \<and> \<not> isna (ChargingStationLocation r)
           \<and> \<not> fisna (EnergyConsumedKwh r)
           \<and> \<not> fisna (ChargingDurationHours r)
           \<and> \<not> fisna (ChargingRateKW r)
           \<and> \<not> isna (TimeOfDay r)
           \<and> \<not> isna (DayOfWeek r)
           \<and> \<not> fisna (DistanceDrivenKm r)
           \<and> \<not> fisna (TemperatureC r)
           \<and> \<not> fisna (VehicleAgeYears r)
           \<and> \<not> isna (ChargerType r)
           \<and> \<not> isna (UserType r)
           \<and> \<not> fisna (ChargingDurationMinutes r)
           \<and> (final_row_has_na r \<longleftrightarrow>
                 ChargingStartDate r = NaT \<or> ChargingStartTime r = NaT
                 \<or> ChargingEndDate r = NaT \<or> ChargingEndTime r = NaT
                 \<or> fisna (StateOfChargeStart r) \<or> fisna (StateOfChargeEnd r)
                 \<or> fisna (ChargingCostUSD r) \<or> fisna (ChargeDifference r)))"
proof -
  have drop1: "\<forall>r \<in> set (dropna u). \<not> row_has_na r"
    by (simp add: dropna_def)
  have drop2: "\<forall>r \<in> set u. row_has_na r \<longrightarrow> r \<notin> set (dropna u)"
    by (simp add: dropna_def)
  have final: "\<not> isna (VehicleModel r)
       \<and> \<not> fisna (BatteryCapacityKWh r)
       \<and> \<not> isna (ChargingStationId r)
       \<and> \<not> isna (ChargingStationLocation r)
       \<and> \<not> fisna (EnergyConsumedKwh r)
       \<and> \<not> fisna (ChargingDurationHours r)
       \<and> \<not> fisna (ChargingRateKW r)
       \<and> \<not> isna (TimeOfDay r)
       \<and> \<not> isna (DayOfWeek r)
       \<and> \<not> fisna (DistanceDrivenKm r)
       \<and> \<not> fisna (TemperatureC r)
       \<and> \<not> fisna (VehicleAgeYears r)
       \<and> \<not> isna (ChargerType r)
       \<and> \<not> isna (UserType r)
       \<and> \<not> fisna (ChargingDurationMinutes r)
       \<and> (final_row_has_na r \<longleftrightarrow>
                 ChargingStartDate r = NaT \<or> ChargingStartTime r = NaT
                 \<or> ChargingEndDate r = NaT \<or> ChargingEndTime r = NaT
                 \<or> fisna (StateOfChargeStart r) \<or> fisna (StateOfChargeEnd r)
                 \<or> fisna (ChargingCostUSD r) \<or> fisna (ChargeDifference r))"
    if a: "run_pipeline pd t = Inr (Some out) \<and> r \<in> set out"
  proof -
    let ?t1 = "dropna (map clean_categoricals_row t)"
    from a obtain t2 where
      t2: "split_datetime_columns pd ?t1 = Inr t2" and out: "strip_symbols_and_derive t2 = Inr out"
      by (auto simp: run_pipeline_unfold split: sum.splits)
    from a obtain i where i: "i < length out" and r: "r = out ! i"
      by (auto simp: in_set_conv_nth)
    have len: "length out = length t2" "length t2 = length ?t1"
      using strip_symbols_and_derive_Inr(1) [OF out] split_datetime_columns_Inr(1) [OF t2]
      by simp_all
    from strip_symbols_and_derive_Inr(2) [OF out, of i] i len obtain soc_start soc_end cost station
      where feat: "out ! i = with_features (t2 ! i) soc_start soc_end cost (PyStr station)"
      by auto
    from split_datetime_columns_Inr(2) [OF t2, of i] i len obtain sd st ed et
      where dated: "t2 ! i = with_dates (?t1 ! i) sd st ed et"
      by auto
    have "?t1 ! i \<in> set ?t1"
      using i len by simp
    then have complete: "\<not> row_has_na (?t1 ! i)"
      by (simp add: dropna_def)
    have row: "r = with_features (with_dates (?t1 ! i) sd st ed et) soc_start soc_end cost
                     (PyStr station)"
      using r feat dated by simp
    from complete have untouched:
      "\<not> isna (VehicleModel r)
       \<and> \<not> fisna (BatteryCapacityKWh r)
       \<and> \<not> isna (ChargingStationId r)
       \<and> \<not> isna (ChargingStationLocation r)
       \<and> \<not> fisna (EnergyConsumedKwh r)
       \<and> \<not> fisna (ChargingDurationHours r)
       \<and> \<not> fisna (ChargingRateKW r)
       \<and> \<not> isna (TimeOfDay r)
       \<and> \<not> isna (DayOfWeek r)
       \<and> \<not> fisna (DistanceDrivenKm r)
       \<and> \<not> fisna (TemperatureC r)
       \<and> \<not> fisna (VehicleAgeYears r)
       \<and> \<not> isna (ChargerType r)
       \<and> \<not> isna (UserType r)
       \<and> \<not> fisna (ChargingDurationMinutes r)"
      unfolding row by (simp add: with_features_def with_dates_def row_has_na_def fmul_60_not_na)
    from complete have rest:
      "(final_row_has_na r \<longleftrightarrow>
                 ChargingStartDate r = NaT \<or> ChargingStartTime r = NaT
                 \<or> ChargingEndDate r = NaT \<or> ChargingEndTime r = NaT
                 \<or> fisna (StateOfChargeStart r) \<or> fisna (StateOfChargeEnd r)
                 \<or> fisna (ChargingCostUSD r) \<or> fisna (ChargeDifference r))"
      unfolding row
      by (simp add: final_row_has_na_def with_features_def with_dates_def row_has_na_def
          fmul_60_not_na) blast
    from untouched rest show ?thesis by simp
  qed
  from drop1 drop2 final show ?thesis by blast
qed

theorem pipeline_missing_values_witness:
  "run_pipeline example_parsers
        [example_row\<lparr>ChargingStartTime := PyStr ''2024-01-01''\<rparr>, example_row] =
      Inr (Some
        [with_features
        (with_dates (clean_categoricals_row (example_row\<lparr>ChargingStartTime := PyStr ''2024-01-01''\<rparr>))
           (Value (Date 2024 1 1)) NaT (Value (Date 2024 1 1)) (Value (Time 9 30 0)))
        (Fin 20) (Fin 80) (Fin (21 / 2)) (PyStr ''123''),
         with_features
        (with_dates (clean_categoricals_row example_row)
           (Value (Date 2024 1 1)) (Value (Time 8 0 0)) (Value (Date 2024 1 1))
           (Value (Time 9 30 0)))
        (Fin 20) (Fin 80) (Fin (21 / 2)) (PyStr ''123'')])
   \<and> \<not> isna (VehicleModel
        (with_features
        (with_dates (clean_categoricals_row example_row)
           (Value (Date 2024 1 1)) (Value (Time 8 0 0)) (Value (Date 2024 1 1))
           (Value (Time 9 30 0)))
        (Fin 20) (Fin 80) (Fin (21 / 2)) (PyStr ''123'')))
   \<and> row_has_na (example_row\<lparr>UserType := PyNaN\<rparr>)
   \<and> example_row\<lparr>UserType := PyNaN\<rparr> \<in> set [example_row, example_row\<lparr>UserType := PyNaN\<rparr>]
   \<and> example_row\<lparr>UserType := PyNaN\<rparr>
       \<notin> set (dropna [example_row, example_row\<lparr>UserType := PyNaN\<rparr>])"
proof -
  let ?f2 = "with_features
        (with_dates (clean_categoricals_row example_row)
           (Value (Date 2024 1 1)) (Value (Time 8 0 0)) (Value (Date 2024 1 1))
           (Value (Time 9 30 0)))
        (Fin 20) (Fin 80) (Fin (21 / 2)) (PyStr ''123'')"
  let ?bad = "example_row\<lparr>UserType := PyNaN\<rparr>"
  note run = example_pipeline_run
  have mem: "?f2 \<in> set [with_features
        (with_dates (clean_categoricals_row (example_row\<lparr>ChargingStartTime := PyStr ''2024-01-01''\<rparr>))
           (Value (Date 2024 1 1)) NaT (Value (Date 2024 1 1)) (Value (Time 9 30 0)))
        (Fin 20) (Fin 80) (Fin (21 / 2)) (PyStr ''123''), ?f2]"
    by simp
  have na: "row_has_na ?bad"
    by (simp add: row_has_na_def)
  have bad: "?bad \<in> set [example_row, ?bad]"
    by simp
  from pipeline_missing_values [of "[example_row, ?bad]" example_parsers
      "[example_row\<lparr>ChargingStartTime := PyStr ''2024-01-01''\<rparr>, example_row]" _ ?f2]
    run mem na bad
  have "\<not> isna (VehicleModel ?f2)" and "?bad \<notin> set (dropna [example_row, ?bad])"
    by blast+
  with run na bad show ?thesis by blast
qed

section \<open>Rounding to a double\<close>

lemma bitlen_powi_bounds:
  assumes "0 < p"
  shows "(2::rat) powi (bitlen p - 1) \<le> of_int p" and "of_int p < (2::rat) powi bitlen p"
proof -
  from bitlen_bounds [OF assms] have
    b: "2 ^ nat (bitlen p - 1) \<le> p" "p < 2 ^ nat (bitlen p)"
    by simp_all
  have pos: "1 \<le> bitlen p"
    using assms by (auto simp: bitlen_alt_def)
  have "(of_int (2 ^ nat (bitlen p - 1)) :: rat) \<le> of_int p"
    using b(1) by (simp only: of_int_le_iff)
  then show "(2::rat) powi (bitlen p - 1) \<le> of_int p"
    using pos by (simp add: power_int_def)
  have "(of_int p :: rat) < of_int (2 ^ nat (bitlen p))"
    using b(2) by (simp only: of_int_less_iff)
  then show "of_int p < (2::rat) powi bitlen p"
    using pos by (simp add: power_int_def)
qed

lemma binary_exponent_bounds:
  assumes "0 < a"
  shows "2 powi binary_exponent a \<le> a \<and> a < 2 powi (binary_exponent a + 1)"
proof -
  obtain p q where pq: "quotient_of a = (p, q)" by (cases "quotient_of a")
  then have q: "0 < q" and a: "a = of_int p / of_int q"
    using quotient_of_denom_pos quotient_of_div by auto
  with assms have p: "0 < p"
    by (simp add: zero_less_divide_iff)
  let ?d = "bitlen p - bitlen q"
  note rp = bitlen_powi_bounds [OF p] and rq = bitlen_powi_bounds [OF q]
  have "of_int p / of_int q < (2::rat) powi bitlen p / 2 powi (bitlen q - 1)"
    using p q rp(2) rq(1) by (intro frac_less) simp_all
  also have "\<dots> = 2 powi (?d + 1)"
    by (simp add: power_int_diff [symmetric] algebra_simps)
  finally have up: "a < 2 powi (?d + 1)"
    unfolding a .
  have "(2::rat) powi (bitlen p - 1) / 2 powi bitlen q \<le> of_int p / of_int q"
    using p q rp(1) rq(2) by (intro frac_le) simp_all
  moreover have "(2::rat) powi (bitlen p - 1) / 2 powi bitlen q = 2 powi (?d - 1)"
    by (simp add: power_int_diff [symmetric] algebra_simps)
  ultimately have low: "2 powi (?d - 1) \<le> a"
    unfolding a by simp
  show ?thesis
    using up low pq by (auto simp: binary_exponent_def Let_def)
qed

lemma binary_exponent_unique:
  assumes "0 < a" and "2 powi e \<le> a" and "a < 2 powi (e + 1)"
  shows "binary_exponent a = e"
proof (rule ccontr)
  let ?b = "binary_exponent a"
  note b = binary_exponent_bounds [OF assms(1)]
  assume "?b \<noteq> e"
  then consider "?b + 1 \<le> e" | "e + 1 \<le> ?b" by linarith
  then show False
  proof cases
    case 1
    then have "(2::rat) powi (?b + 1) \<le> 2 powi e"
      by (intro power_int_increasing) simp_all
    with b assms(2) show False by linarith
  next
    case 2
    then have "(2::rat) powi (e + 1) \<le> 2 powi ?b"
      by (intro power_int_increasing) simp_all
    with b assms(3) show False by linarith
  qed
qed

lemma round_half_even_near:
  assumes "of_int n - 1 / 2 < x" and "x < of_int n + 1 / 2"
  shows "round_half_even x = n"
proof -
  define f where "f = \<lfloor>x\<rfloor>"
  have lo: "of_int f \<le> x" and hi: "x < of_int f + 1"
    unfolding f_def by linarith+
  have "(of_int f :: rat) < of_int (n + 1)"
    using lo assms(2) by simp
  then have f_le: "f \<le> n"
    by (simp only: of_int_less_iff)
  have "(of_int (n - 1) :: rat) < of_int (f + 1)"
    using hi assms(1) by simp
  then have n_le: "n - 1 \<le> f"
    by (simp only: of_int_less_iff)
  from f_le n_le consider "f = n" | "f = n - 1" by linarith
  then show ?thesis
  proof cases
    case 1
    then have "x - of_int f < 1 / 2"
      using assms(2) by simp
    then show ?thesis
      using 1 by (simp add: round_half_even_def Let_def f_def [symmetric])
  next
    case 2
    then have r: "1 / 2 < x - of_int f"
      using assms(1) by simp
    then have "\<not> x - of_int f < 1 / 2" by simp
    with r show ?thesis
      using 2 by (simp add: round_half_even_def Let_def f_def [symmetric])
  qed
qed

lemma round_half_even_of_int: "round_half_even (of_int n) = n"
  by (rule round_half_even_near) simp_all

lemma round_double_certificate:
  assumes "q \<noteq> 0" and "2 powi e \<le> \<bar>q\<bar>" and "\<bar>q\<bar> < 2 powi (e + 1)"
    and "- 1022 \<le> e" and "e \<le> 1023"
    and "of_int n - 1 / 2 < \<bar>q\<bar> / 2 powi (e - 52)"
    and "\<bar>q\<bar> / 2 powi (e - 52) < of_int n + 1 / 2"
    and "n < 2 ^ 53"
  shows "round_double q = Fin ((if q < 0 then - 1 else 1) * (of_int n * 2 powi (e - 52)))"
proof -
  have be: "binary_exponent \<bar>q\<bar> = e"
    using assms(1,2,3) by (intro binary_exponent_unique) simp_all
  have mx: "max e (- 1022) = e"
    using assms(4) by simp
  have rh: "round_half_even (\<bar>q\<bar> / 2 powi (e - 52)) = n"
    using assms(6,7) by (rule round_half_even_near)
  have "(of_int n :: rat) < of_int (2 ^ 53)"
    using assms(8) by (simp only: of_int_less_iff)
  then have "(of_int n :: rat) < 2 powi 53"
    by simp
  then have "of_int n * (2::rat) powi (e - 52) < 2 powi 53 * 2 powi (e - 52)"
    by (intro mult_strict_right_mono) simp_all
  also have "\<dots> = 2 powi (e + 1)"
    by (subst power_int_add [symmetric]) (simp_all add: add.commute)
  also have "\<dots> \<le> 2 powi 1024"
    using assms(5) by (intro power_int_increasing) simp_all
  finally have m: "\<not> 2 powi 1024 \<le> of_int n * (2::rat) powi (e - 52)"
    by simp
  show ?thesis
    unfolding round_double_def Let_def be mx rh
    using assms(1) m by simp
qed

lemma round_double_int:
  assumes "q \<in> \<int>" and "\<bar>q\<bar> < 2 ^ 53"
  shows "round_double q = Fin q"
proof (cases "q = 0")
  case True
  then show ?thesis by (simp add: round_double_def)
next
  case False
  from assms(1) obtain k where k: "q = of_int k"
    by (auto elim: Ints_cases)
  with False have k0: "k \<noteq> 0" by auto
  let ?a = "\<bar>q\<bar>"
  have a1: "1 \<le> ?a"
    using k0 by (simp add: k flip: of_int_abs)
  define e where "e = binary_exponent ?a"
  have b: "2 powi e \<le> ?a" "?a < 2 powi (e + 1)"
    using binary_exponent_bounds [of ?a] False by (simp_all add: e_def)
  have e0: "0 \<le> e"
  proof (rule ccontr)
    assume "\<not> 0 \<le> e"
    then have "(2::rat) powi (e + 1) \<le> 2 powi 0"
      by (intro power_int_increasing) simp_all
    with b(2) a1 show False by simp
  qed
  have e52: "e \<le> 52"
  proof (rule ccontr)
    assume "\<not> e \<le> 52"
    then have "(2::rat) powi 53 \<le> 2 powi e"
      by (intro power_int_increasing) simp_all
    with b(1) assms(2) show False by simp
  qed
  define n where "n = \<bar>k\<bar> * 2 ^ nat (52 - e)"
  have ulp: "(2::rat) powi (e - 52) = 1 / 2 ^ nat (52 - e)"
    using e52 by (simp add: power_int_def field_simps)
  have n_quot: "?a / 2 powi (e - 52) = of_int n"
    by (simp add: ulp n_def k flip: of_int_abs)
  have n_ulp: "of_int n * (2::rat) powi (e - 52) = ?a"
    by (simp add: ulp n_def k flip: of_int_abs)
  have "(2::rat) powi e \<le> 2 powi 1023"
    using e52 by (intro power_int_increasing) simp_all
  have "?a < 2 powi 53"
    using assms(2) by simp
  also have "(2::rat) powi 53 \<le> 2 powi 1024"
    by (intro power_int_increasing) simp_all
  finally have m: "\<not> 2 powi 1024 \<le> ?a" by simp
  have be: "max (binary_exponent ?a) (- 1022) = e"
    using e0 by (simp add: e_def)
  have "round_double q = Fin (if q < 0 then - ?a else ?a)"
    unfolding round_double_def Let_def be n_quot round_half_even_of_int n_ulp
    using False m by simp
  then show ?thesis by simp
qed

lemma round_double_1: "round_double (3 / 4) = Fin (3 / 4)"
  using round_double_certificate [of "3 / 4" "- 1" 6755399441055744]
  by simp

lemma round_double_2: "round_double (3602879701896397 / 2251799813685248) = Fin (3602879701896397 / 2251799813685248)"
  using round_double_certificate [of "3602879701896397 / 2251799813685248" "0" 7205759403792794]
  by simp

lemma round_double_3: "round_double (1 / 4) = Fin (1 / 4)"
  using round_double_certificate [of "1 / 4" "- 2" 4503599627370496]
  by simp

lemma round_double_4: "round_double (3602879701896397 / 9007199254740992) = Fin (3602879701896397 / 9007199254740992)"
  using round_double_certificate [of "3602879701896397 / 9007199254740992" "- 2" 7205759403792794]
  by simp

lemma round_double_5: "round_double (23418718062326579 / 9007199254740992) = Fin (5854679515581645 / 2251799813685248)"
  using round_double_certificate [of "23418718062326579 / 9007199254740992" "1" 5854679515581645]
  by simp

lemma round_double_6: "round_double (9 / 4) = Fin (9 / 4)"
  using round_double_certificate [of "9 / 4" "1" 5066549580791808]
  by simp

lemma round_double_7: "round_double (2702159776422297 / 2251799813685248) = Fin (2702159776422297 / 2251799813685248)"
  using round_double_certificate [of "2702159776422297 / 2251799813685248" "0" 5404319552844594]
  by simp

lemma round_double_8: "round_double (2702159776422297 / 9007199254740992) = Fin (2702159776422297 / 9007199254740992)"
  using round_double_certificate [of "2702159776422297 / 9007199254740992" "- 2" 5404319552844594]
  by simp

lemma round_double_9: "round_double (30624477466119373 / 9007199254740992) = Fin (7656119366529843 / 2251799813685248)"
  using round_double_certificate [of "30624477466119373 / 9007199254740992" "1" 7656119366529843]
  by simp

lemma round_double_10: "round_double (900719925474099 / 1125899906842624) = Fin (900719925474099 / 1125899906842624)"
  using round_double_certificate [of "900719925474099 / 1125899906842624" "- 1" 7205759403792792]
  by simp

lemma round_double_11: "round_double (788129934789837 / 562949953421312) = Fin (788129934789837 / 562949953421312)"
  using round_double_certificate [of "788129934789837 / 562949953421312" "0" 6305039478318696]
  by simp

lemma round_double_12: "round_double (2589569785738035 / 562949953421312) = Fin (2589569785738035 / 562949953421312)"
  using round_double_certificate [of "2589569785738035 / 562949953421312" "2" 5179139571476070]
  by simp

section \<open>Outlier check\<close>

lemmas double_eval = dsub_def dadd_def dmul_def round_result_def round_double_int

lemma example_bounds:
  "dsub (Fin 10) (dmul (Fin (3 / 2)) (dsub (Fin 20) (Fin 10))) = Fin (- 5)"
  "dadd (Fin 20) (dmul (Fin (3 / 2)) (dsub (Fin 20) (Fin 10))) = Fin 35"
  by (simp_all add: double_eval)

lemma round_double_3501: "round_double (3501 / 100) = Fin (4927219467320033 / 140737488355328)"
  using round_double_certificate [of "3501 / 100" 5 4927219467320033]
  by simp

lemma example_quartiles:
  "linear_quantile (1 / 4)
     [Fin 35, Fin 8, Fin 10, round_double (3501 / 100), Fin 15, Fin 18, Fin 20, Fin 12, Fin 5]
   = Fin 10"
  "linear_quantile (3 / 4)
     [Fin 35, Fin 8, Fin 10, round_double (3501 / 100), Fin 15, Fin 18, Fin 20, Fin 12, Fin 5]
   = Fin 20"
  by (simp_all add: linear_quantile_def sort_floats_def round_double_3501 double_eval Let_def)

text \<open>
  Rounding decides the count: for the doubles written 3.1, 4.3, 3.0 and 1.4 the quartiles
  are the doubles written 2.6 and 3.4, the lower bound is rounded to a double above the
  one written 1.4, and that value is counted.
\<close>

lemma example_floors: "\<lfloor>3 / 4 :: rat\<rfloor> = 0" "\<lfloor>9 / 4 :: rat\<rfloor> = 2"
  by (simp_all add: floor_eq_iff)

lemma rounding_example_quartiles:
  "linear_quantile (1 / 4)
     [Fin (6980579422424269 / 2251799813685248), Fin (4841369599423283 / 1125899906842624),
      Fin 3, Fin (3152519739159347 / 2251799813685248)]
   = Fin (5854679515581645 / 2251799813685248)"
  "linear_quantile (3 / 4)
     [Fin (6980579422424269 / 2251799813685248), Fin (4841369599423283 / 1125899906842624),
      Fin 3, Fin (3152519739159347 / 2251799813685248)]
   = Fin (7656119366529843 / 2251799813685248)"
  by (simp_all add: linear_quantile_def sort_floats_def dsub_def dadd_def dmul_def
      round_result_def Let_def example_floors round_double_1 round_double_2 round_double_3 round_double_4
      round_double_5 round_double_6 round_double_7 round_double_8 round_double_9)

lemma rounding_example:
  "outliers linear_quantile
     [Fin (6980579422424269 / 2251799813685248), Fin (4841369599423283 / 1125899906842624),
      Fin 3, Fin (3152519739159347 / 2251799813685248)]
   = [Fin (3152519739159347 / 2251799813685248)]"
  unfolding outliers_def rounding_example_quartiles Let_def
  by (simp add: dsub_def dadd_def dmul_def round_result_def round_double_7 round_double_10
      round_double_11 round_double_12)

text \<open>
  C4: with \<open>Q1\<close> and \<open>Q3\<close> the quartiles that \<open>Series.quantile\<close> returns for a
  column and \<open>IQR = Q3 - Q1\<close>, a value of the column is selected, and counted, if and
  only if it is strictly below \<open>Q1 - 1.5 * IQR\<close> or strictly above
  \<open>Q3 + 1.5 * IQR\<close>, the bounds being computed in double precision. The count
  reported for a column, at its place among any number of numeric columns, is the number
  of such values, and the method reports these counts for the numeric columns of the
  table. With \<open>Q1 = 10\<close> and \<open>Q3 = 20\<close> the bounds are -5 and 35: the value 35 is not
  counted, and the double written 35.01, when the column has it, is counted.
\<close>

theorem outlier_rule:
  assumes "quantile (1 / 4) col = Q1" and "quantile (3 / 4) col = Q3"
    and "lower_bound = dsub Q1 (dmul (Fin (3 / 2)) (dsub Q3 Q1))"
    and "upper_bound = dadd Q3 (dmul (Fin (3 / 2)) (dsub Q3 Q1))"
  shows "(x \<in> set (outliers quantile col) \<longleftrightarrow>
            x \<in> set col \<and> (flt x lower_bound \<or> flt upper_bound x))
         \<and> (\<forall>columns i. i < length columns \<and> columns ! i = (column, col) \<longrightarrow>
               length (outlier_counts quantile columns) = length columns
               \<and> outlier_counts quantile columns ! i
                   = (column, length (filter (\<lambda>x. flt x lower_bound \<or> flt upper_bound x) col)))
         \<and> check_outliers_iqr quantile (Some t)
             = Inr (outlier_counts quantile (numeric_columns t))
         \<and> length (numeric_columns t) = 12
         \<and> (Q1 = Fin 10 \<and> Q3 = Fin 20 \<longrightarrow>
               lower_bound = Fin (- 5) \<and> upper_bound = Fin 35
               \<and> Fin 35 \<notin> set (outliers quantile col)
               \<and> (round_double (3501 / 100) \<in> set col
                    \<longrightarrow> round_double (3501 / 100) \<in> set (outliers quantile col)))"
proof -
  have sel: "outliers quantile col = filter (\<lambda>x. flt x lower_bound \<or> flt upper_bound x) col"
    by (simp add: outliers_def assms Let_def)
  have member: "x \<in> set (outliers quantile col) \<longleftrightarrow>
            x \<in> set col \<and> (flt x lower_bound \<or> flt upper_bound x)" for x
    by (simp add: sel)
  have counts: "\<forall>columns i. i < length columns \<and> columns ! i = (column, col) \<longrightarrow>
               length (outlier_counts quantile columns) = length columns
               \<and> outlier_counts quantile columns ! i
                   = (column, length (filter (\<lambda>x. flt x lower_bound \<or> flt upper_bound x) col))"
    by (simp add: outlier_counts_def sel)
  have reported: "check_outliers_iqr quantile (Some t)
             = Inr (outlier_counts quantile (numeric_columns t))"
    by (simp add: check_outliers_iqr_def ensure_df_def)
  have n_columns: "length (numeric_columns t) = 12"
    by (simp add: numeric_columns_def)
  have example: "lower_bound = Fin (- 5) \<and> upper_bound = Fin 35
               \<and> Fin 35 \<notin> set (outliers quantile col)
               \<and> (round_double (3501 / 100) \<in> set col
                    \<longrightarrow> round_double (3501 / 100) \<in> set (outliers quantile col))"
    if "Q1 = Fin 10 \<and> Q3 = Fin 20"
  proof -
    from that assms(3,4) have b: "lower_bound = Fin (- 5)" "upper_bound = Fin 35"
      by (simp_all add: example_bounds)
    then show ?thesis
      by (simp add: member round_double_3501)
  qed
  from member [of x] counts reported n_columns example show ?thesis
    by blast
qed

theorem outlier_rule_witness:
  "linear_quantile (1 / 4)
     [Fin 35, Fin 8, Fin 10, round_double (3501 / 100), Fin 15, Fin 18, Fin 20, Fin 12, Fin 5]
     = Fin 10
   \<and> linear_quantile (3 / 4)
     [Fin 35, Fin 8, Fin 10, round_double (3501 / 100), Fin 15, Fin 18, Fin 20, Fin 12, Fin 5]
     = Fin 20
   \<and> Fin 35 \<notin> set (outliers linear_quantile
        [Fin 35, Fin 8, Fin 10, round_double (3501 / 100), Fin 15, Fin 18, Fin 20, Fin 12, Fin 5])
   \<and> round_double (3501 / 100) \<in> set (outliers linear_quantile
        [Fin 35, Fin 8, Fin 10, round_double (3501 / 100), Fin 15, Fin 18, Fin 20, Fin 12, Fin 5])
   \<and> outlier_counts linear_quantile
        [(''VehicleAgeYears'', [Fin 1, Fin 2, Fin 3]),
         (''TemperatureC'',
          [Fin 35, Fin 8, Fin 10, round_double (3501 / 100), Fin 15, Fin 18, Fin 20, Fin 12, Fin 5])]
        ! 1
      = (''TemperatureC'', 1)"
proof -
  let ?col = "[Fin 35, Fin 8, Fin 10, round_double (3501 / 100), Fin 15, Fin 18, Fin 20,
               Fin 12, Fin 5]"
  let ?columns = "[(''VehicleAgeYears'', [Fin 1, Fin 2, Fin 3]), (''TemperatureC'', ?col)]"
  note q = example_quartiles
  note inst = outlier_rule [where quantile = linear_quantile and col = ?col
      and ?Q1.0 = "Fin 10" and ?Q3.0 = "Fin 20" and column = "''TemperatureC''",
      OF q refl refl]
  have i: "1 < length ?columns \<and> ?columns ! 1 = (''TemperatureC'', ?col)"
    by simp
  have mem: "round_double (3501 / 100) \<in> set ?col"
    by simp
  from inst mem have b: "Fin 35 \<notin> set (outliers linear_quantile ?col)"
    "round_double (3501 / 100) \<in> set (outliers linear_quantile ?col)"
    by blast+
  from inst i have
    "outlier_counts linear_quantile ?columns ! 1
       = (''TemperatureC'',
          length (filter (\<lambda>x. flt x (dsub (Fin 10) (dmul (Fin (3 / 2)) (dsub (Fin 20) (Fin 10))))
                             \<or> flt (dadd (Fin 20) (dmul (Fin (3 / 2)) (dsub (Fin 20) (Fin 10)))) x)
                    ?col))"
    by blast
  then have c: "outlier_counts linear_quantile ?columns ! 1 = (''TemperatureC'', 1)"
    by (simp add: example_bounds round_double_3501)
  from q b c show ?thesis by simp
qed

end
